theory Spec2Isabelle
  imports Main "HOL-Library.AList" "HOL-Library.Multiset"
begin

section \<open>Strings as the scripts use them\<close>

text \<open>
  JavaScript strings are modelled as \<^typ>\<open>string\<close>, read as sequences of ASCII code
  units. The string primitives the two scripts call are written out below; outside
  ASCII (\<open>toLowerCase\<close> on accented letters, the Unicode members of the regular
  expression class \<open>\s\<close>) the model says nothing.
\<close>

definition lower_char :: "char \<Rightarrow> char" where
  "lower_char c =
     (case map_of (zip ''ABCDEFGHIJKLMNOPQRSTUVWXYZ'' ''abcdefghijklmnopqrstuvwxyz'') c of
        Some l \<Rightarrow> l
      | None \<Rightarrow> c)"

definition toLowerCase :: "string \<Rightarrow> string" where
  "toLowerCase s = map lower_char s"

definition is_ws :: "char \<Rightarrow> bool" where
  \<comment> \<open>the ASCII members of \<open>\s\<close>: tab, line feed, vertical tab, form feed, return, space\<close>
  "is_ws c = ((of_char c :: nat) \<in> {9, 10, 11, 12, 13, 32})"

text \<open>
  \<open>s.split(/\s+/)\<close>: the pieces between maximal runs of white space. A leading or
  trailing run yields an empty first or last piece, and the empty string yields one
  empty piece. The flag says whether the previous character was white space.
\<close>

fun split_ws_from :: "bool \<Rightarrow> string \<Rightarrow> string \<Rightarrow> string list" where
  "split_ws_from inrun acc [] = [rev acc]"
| "split_ws_from inrun acc (c # cs) =
     (if is_ws c then
        (if inrun then split_ws_from True acc cs
         else rev acc # split_ws_from True [] cs)
      else split_ws_from False (c # acc) cs)"

definition split_ws :: "string \<Rightarrow> string list" where
  "split_ws s = split_ws_from False [] s"

text \<open>\<open>s.split(':')\<close> and its like: the pieces between occurrences of one character.\<close>

fun split_char :: "char \<Rightarrow> string \<Rightarrow> string list" where
  "split_char sep [] = [[]]"
| "split_char sep (c # cs) =
     (if c = sep then [] # split_char sep cs
      else (case split_char sep cs of
              [] \<Rightarrow> [[c]]
            | w # ws \<Rightarrow> (c # w) # ws))"

text \<open>\<open>s.includes(t)\<close>: \<open>t\<close> occurs in \<open>s\<close> as a contiguous piece.\<close>

fun str_includes :: "string \<Rightarrow> string \<Rightarrow> bool" where
  "str_includes [] t = (t = [])"
| "str_includes (c # cs) t = (take (length t) (c # cs) = t \<or> str_includes cs t)"

section \<open>Title similarity (sidebar.js, isSimilarTitle)\<close>

definition commonWords :: "string list" where
  "commonWords =
     [''the'', ''a'', ''an'', ''and'', ''or'', ''but'', ''in'', ''on'', ''at'', ''to'', ''for'']"

definition significant :: "string \<Rightarrow> bool" where
  \<comment> \<open>the filter \<open>w => w.length > 2 && !commonWords.includes(w)\<close>\<close>
  "significant w = (length w > 2 \<and> w \<notin> set commonWords)"

definition isSimilarTitle :: "string \<Rightarrow> string \<Rightarrow> bool" where
  "isSimilarTitle title1 title2 =
     (if title1 = [] \<or> title2 = [] then False
      else if title1 = title2 then False
      else
        (let words1 = filter significant (split_ws title1);
             words2 = filter significant (split_ws title2);
             commonCount = length (filter (\<lambda>w. w \<in> set words2) words1)
         in commonCount > 0))"

text \<open>
  \<open>findRelatedNotes\<close> lower-cases both titles before it calls \<open>isSimilarTitle\<close>;
  the relatedness of two titles is that composition.
\<close>

definition relatedTitles :: "string \<Rightarrow> string \<Rightarrow> bool" where
  "relatedTitles t1 t2 = isSimilarTitle (toLowerCase t1) (toLowerCase t2)"

text \<open>
  The similarity rule in the words of the specification, for comparison: the token set
  of a lower-cased title, and relatedness as a shared token between unequal titles.
\<close>

definition spec_tokens :: "string \<Rightarrow> string set" where
  "spec_tokens t =
     {w \<in> set (split_ws (toLowerCase t)).
        \<not> length w \<le> 2 \<and>
        w \<notin> {''the'', ''a'', ''an'', ''and'', ''or'', ''but'', ''in'', ''on'', ''at'', ''to'', ''for''}}"

definition spec_related :: "string \<Rightarrow> string \<Rightarrow> bool" where
  "spec_related t1 t2 =
     (spec_tokens t1 \<inter> spec_tokens t2 \<noteq> {} \<and> toLowerCase t1 \<noteq> toLowerCase t2)"

section \<open>Contexts, notes and the persistent store\<close>

text \<open>
  A context object as the content script builds it. Fields that a detector leaves out
  (\<open>sender\<close> outside mail, \<open>channel\<close> outside the video site, \<open>isLoading\<close> on every
  detected context) are the empty string, the empty list and \<open>False\<close>, which is how
  the scripts read an absent field.
\<close>

record ctx =
  app :: string
  title :: string
  sender :: string
  participants :: "string list"
  threadId :: string
  channel :: string
  url :: string
  key :: string
  isLoading :: bool

text \<open>The note object of \<open>handleAddNote\<close>: \<open>{text, timestamp, context}\<close>.\<close>

record note_obj =
  note_text :: string
  timestamp :: int
  note_context :: ctx

text \<open>A related note: the note's fields, then \<open>contextKey\<close> and \<open>index\<close>.\<close>

record related_note = note_obj +
  contextKey :: string
  index :: nat

text \<open>
  \<open>chrome.storage.local\<close>: keys with JSON values. A value is an array of notes, or
  something else (the background script stores \<open>notes_index: {}\<close> on installation).
  The association list is read in the order in which \<open>get(null)\<close> enumerates the keys;
  a write to a new key puts it last, and no property below depends on the place.
\<close>

datatype stored = Notes "note_obj list" | Other

type_synonym store = "(string \<times> stored) list"

text \<open>\<open>result[key] || []\<close> where the stored value is an array or absent.\<close>

definition bucket :: "store \<Rightarrow> string \<Rightarrow> note_obj list" where
  "bucket st k = (case map_of st k of Some (Notes ns) \<Rightarrow> ns | _ \<Rightarrow> [])"

section \<open>Related notes (sidebar.js, findRelatedNotes and renderRelatedNotes)\<close>

definition keyTitle :: "string \<Rightarrow> string" where
  \<comment> \<open>\<open>key.split(':')[1]?.toLowerCase() || ''\<close>\<close>
  "keyTitle k = (case split_char CHR '':'' k of _ # t # _ \<Rightarrow> toLowerCase t | _ \<Rightarrow> [])"

definition annotate :: "string \<Rightarrow> note_obj list \<Rightarrow> related_note list" where
  \<comment> \<open>\<open>{...note, contextKey: key, index: index}\<close> for each note of a bucket\<close>
  "annotate k ns =
     map (\<lambda>(n, i). \<lparr>note_text = note_text n, timestamp = timestamp n,
                      note_context = note_context n, contextKey = k, index = i\<rparr>)
         (zip ns [0..<length ns])"

text \<open>The body of the loop over \<open>Object.keys(allData)\<close>, for one stored key.\<close>

fun relatedIn :: "string \<Rightarrow> string \<Rightarrow> string \<times> stored \<Rightarrow> related_note list" where
  "relatedIn currentKey currentTitle (k, v) =
     (if k = currentKey then []
      else if \<not> str_includes k '':'' then []
      else (case v of
              Other \<Rightarrow> []
            | Notes ns \<Rightarrow>
                if ns = [] then []
                else if isSimilarTitle currentTitle (keyTitle k) then annotate k ns
                else []))"

definition collectRelated :: "store \<Rightarrow> string \<Rightarrow> string \<Rightarrow> related_note list" where
  \<comment> \<open>the array \<open>relatedNotes\<close> when the scan ends; \<open>ttl\<close> is \<open>currentContext.title\<close>\<close>
  "collectRelated st currentKey ttl = concat (map (relatedIn currentKey (toLowerCase ttl)) st)"

definition sortNewest :: "related_note list \<Rightarrow> related_note list" where
  \<comment> \<open>\<open>.sort((a, b) => b.timestamp - a.timestamp)\<close>, a stable sort\<close>
  "sortNewest rs = sort_key (\<lambda>n. - timestamp n) rs"

definition recentRelated :: "related_note list \<Rightarrow> related_note list" where
  "recentRelated rs = take 5 (sortNewest rs)"

definition findRelated :: "store \<Rightarrow> string \<Rightarrow> string \<Rightarrow> related_note list" where
  \<comment> \<open>the related notes put on screen for a current key and title\<close>
  "findRelated st currentKey ttl = recentRelated (collectRelated st currentKey ttl)"

section \<open>The note panel (sidebar.js)\<close>

text \<open>
  The globals of the script and the parts of its page that the handlers write, as one
  record. \<open>noteInput\<close> is the value of the textarea, \<open>notesList\<close> and
  \<open>relatedSection\<close> are what the two lists show, \<open>reloadTimers\<close> counts the callbacks
  that \<open>reloadExtension\<close> has scheduled and that have not run yet. The emoji in front
  of the title, the all-notes view (\<open>allNotes\<close>, \<open>loadAllNotes\<close>, \<open>renderAllNotes\<close>)
  and the date formatting are left out: no handler below reads them.

  A callback of \<open>chrome.storage.local\<close> runs right after the call that registers it,
  so each handler is one step. The callbacks of one handler write disjoint fields, so
  the state after the step is the state the script reaches when no other event comes
  between the call and its callback.
\<close>

datatype view = CurrentView | AllView

datatype list_dom =
  LoadingItems  \<comment> \<open>the "Loading..." placeholder of \<open>showLoadingState\<close>\<close>
  | EmptyState  \<comment> \<open>"No notes yet"\<close>
  | NoteItems "(note_obj \<times> nat) list"  \<comment> \<open>each note with the index its Delete button passes\<close>

datatype title_dom = LoadingTitle | TitleText string

record sidebar =
  currentContext :: "ctx option"
  currentNotes :: "note_obj list"
  relatedNotes :: "related_note list"
  currentView :: view
  noteInput :: string
  contextApp :: string
  contextTitle :: title_dom
  titleDimmed :: bool
  notesList :: list_dom
  relatedSection :: "related_note list option"
  storage :: store
  reloadTimers :: nat

datatype message = CONTEXT_UPDATE ctx | PAGE_CONTENT string | OTHER_MESSAGE

definition showLoadingState :: "sidebar \<Rightarrow> sidebar" where
  "showLoadingState s =
     s\<lparr>contextTitle := LoadingTitle, titleDimmed := True,
       notesList := LoadingItems, relatedSection := None\<rparr>"

definition hideLoadingState :: "sidebar \<Rightarrow> sidebar" where
  "hideLoadingState s = s\<lparr>titleDimmed := False\<rparr>"

definition updateContextDisplay :: "sidebar \<Rightarrow> sidebar" where
  "updateContextDisplay s =
     (case currentContext s of
        None \<Rightarrow> s
      | Some c \<Rightarrow> s\<lparr>contextApp := app c, contextTitle := TitleText (title c)\<rparr>)"

definition renderNotes :: "sidebar \<Rightarrow> sidebar" where
  \<comment> \<open>newest first; the note shown at position \<open>i\<close> carries index \<open>length - 1 - i\<close>\<close>
  "renderNotes s =
     s\<lparr>notesList :=
         (if currentNotes s = [] then EmptyState
          else NoteItems (rev (zip (currentNotes s) [0..<length (currentNotes s)])))\<rparr>"

text \<open>
  \<open>loadNotes\<close>. Where the stored value is not an array, \<open>renderNotes\<close> spreads a
  non-iterable and throws: the result is \<open>None\<close>.
\<close>

definition loadNotes :: "sidebar \<Rightarrow> sidebar option" where
  "loadNotes s =
     (case currentContext s of
        None \<Rightarrow> Some s
      | Some c \<Rightarrow>
          (case map_of (storage s) (key c) of
             Some Other \<Rightarrow> None
           | Some (Notes ns) \<Rightarrow> Some (renderNotes (s\<lparr>currentNotes := ns\<rparr>))
           | None \<Rightarrow> Some (renderNotes (s\<lparr>currentNotes := []\<rparr>))))"

definition renderRelatedNotes :: "sidebar \<Rightarrow> sidebar" where
  \<comment> \<open>\<open>sort\<close> sorts the global array in place; \<open>slice(0, 5)\<close> is what is shown\<close>
  "renderRelatedNotes s =
     (if relatedNotes s = [] then s\<lparr>relatedSection := None\<rparr>
      else s\<lparr>relatedNotes := sortNewest (relatedNotes s),
             relatedSection := Some (recentRelated (relatedNotes s))\<rparr>)"

definition findRelatedNotes :: "sidebar \<Rightarrow> sidebar" where
  "findRelatedNotes s =
     (case currentContext s of
        None \<Rightarrow> s
      | Some c \<Rightarrow>
          renderRelatedNotes
            (s\<lparr>relatedNotes := collectRelated (storage s) (key c) (title c)\<rparr>))"

definition switchView :: "view \<Rightarrow> sidebar \<Rightarrow> sidebar" where
  "switchView v s = s\<lparr>currentView := v\<rparr>"

definition reloadExtension :: "sidebar \<Rightarrow> sidebar" where
  "reloadExtension s =
     (let s1 = showLoadingState s;
          s2 = s1\<lparr>noteInput := []\<rparr>;
          s3 = (if currentView s2 = AllView then switchView CurrentView s2 else s2)
      in s3\<lparr>reloadTimers := reloadTimers s3 + 1\<rparr>)"

text \<open>
  The callback that \<open>reloadExtension\<close> hands to \<open>setTimeout\<close>, 100 ms later; it
  runs when one is pending.
\<close>

definition reloadTimeout :: "sidebar \<Rightarrow> sidebar option" where
  "reloadTimeout s =
     (case loadNotes (updateContextDisplay s) of
        None \<Rightarrow> None
      | Some s1 \<Rightarrow>
          Some ((hideLoadingState (findRelatedNotes s1))\<lparr>reloadTimers := reloadTimers s - 1\<rparr>))"

text \<open>
  The listener of \<open>setupMessageListener\<close>. A string is truthy when it is not empty;
  \<open>currentContext?.url\<close> of a null context is \<open>undefined\<close>, which is falsy:
  \<open>noPreviousUrl\<close> is \<open>!previousUrl\<close>.
\<close>

definition onMessage :: "message \<Rightarrow> sidebar \<Rightarrow> sidebar" where
  "onMessage m s =
     (case m of
        CONTEXT_UPDATE newContext \<Rightarrow>
          if isLoading newContext then showLoadingState (s\<lparr>currentContext := Some newContext\<rparr>)
          else
            (let previousUrl = map_option url (currentContext s);
                 previousTitle = map_option title (currentContext s);
                 s1 = s\<lparr>currentContext := Some newContext\<rparr>;
                 noPreviousUrl = (previousUrl = None \<or> previousUrl = Some []);
                 urlChanged = (\<not> noPreviousUrl \<and> previousUrl \<noteq> Some (url newContext))
             in if urlChanged \<or> noPreviousUrl \<or> previousTitle = Some ''Loading...''
                then reloadExtension s1
                else updateContextDisplay s1)
      | _ \<Rightarrow> s)"

text \<open>\<open>String.prototype.trim\<close>, on ASCII white space.\<close>

definition trim :: "string \<Rightarrow> string" where
  "trim s = rev (dropWhile is_ws (rev (dropWhile is_ws s)))"

text \<open>
  \<open>chrome.storage.local.set({[k]: v}, callback)\<close>. The write can fail (quota, a closed
  backing store); \<open>ok\<close> is its outcome. The callback runs in both cases, a failure is
  reported through \<open>chrome.runtime.lastError\<close>, which the script never reads.
\<close>

definition store_set :: "bool \<Rightarrow> string \<Rightarrow> stored \<Rightarrow> store \<Rightarrow> store" where
  "store_set ok k v st = (if ok then AList.update k v st else st)"

text \<open>
  \<open>handleAddNote\<close>; \<open>now\<close> is \<open>Date.now()\<close>. The reload of the all-notes view
  at the end of the callback is left out with that view.
\<close>

definition handleAddNote :: "int \<Rightarrow> bool \<Rightarrow> sidebar \<Rightarrow> sidebar" where
  "handleAddNote now ok s =
     (let noteText = trim (noteInput s) in
      case currentContext s of
        None \<Rightarrow> s
      | Some c \<Rightarrow>
          if noteText = [] then s
          else
            (let n = \<lparr>note_text = noteText, timestamp = now, note_context = c\<rparr>;
                 s1 = s\<lparr>currentNotes := currentNotes s @ [n]\<rparr>;
                 s2 = s1\<lparr>storage := store_set ok (key c) (Notes (currentNotes s1)) (storage s1)\<rparr>;
                 s3 = s2\<lparr>noteInput := []\<rparr>
             in findRelatedNotes (renderNotes s3)))"

text \<open>
  \<open>xs.splice(index, 1)\<close>, the array left behind: a negative index counts from the
  end, an index beyond the end removes nothing.
\<close>

definition splice1 :: "int \<Rightarrow> 'a list \<Rightarrow> 'a list" where
  "splice1 i xs =
     (let len = int (length xs);
          start = (if i < 0 then max (len + i) 0 else min i len);
          deleteCount = min 1 (len - start)
      in take (nat start) xs @ drop (nat (start + deleteCount)) xs)"

text \<open>
  \<open>handleDeleteNote(index, relatedContextKey, fromAllView)\<close>; \<open>confirmed\<close> is the
  answer to the confirmation dialog. \<open>None\<close> stands for an exception: a null storage
  key, \<open>splice\<close> on a stored value that is not an array, or \<open>currentContext.key\<close>
  of a null context. From the all-notes view the callback reloads that view, which is
  left out.
\<close>

definition handleDeleteNote ::
  "int \<Rightarrow> string option \<Rightarrow> bool \<Rightarrow> bool \<Rightarrow> bool \<Rightarrow> sidebar \<Rightarrow> sidebar option" where
  "handleDeleteNote i relatedContextKey fromAllView confirmed ok s =
     (if \<not> confirmed then Some s
      else if (relatedContextKey \<noteq> None \<and> relatedContextKey \<noteq> Some []) \<or> fromAllView then
        (case relatedContextKey of
           None \<Rightarrow> None
         | Some ck \<Rightarrow>
             (case map_of (storage s) ck of
                Some Other \<Rightarrow> None
              | _ \<Rightarrow>
                  (let notes = splice1 i (bucket (storage s) ck);
                       s1 = s\<lparr>storage := store_set ok ck (Notes notes) (storage s)\<rparr>
                   in if fromAllView then Some s1 else Some (findRelatedNotes s1))))
      else
        (case currentContext s of
           None \<Rightarrow> None
         | Some c \<Rightarrow>
             (let s1 = s\<lparr>currentNotes := splice1 i (currentNotes s)\<rparr>;
                  s2 = s1\<lparr>storage := store_set ok (key c) (Notes (currentNotes s1)) (storage s1)\<rparr>
              in Some (renderNotes s2))))"

section \<open>The host page and context detection (content script, detectContext)\<close>

text \<open>
  The detectors read the location, the document title and the first element matched by
  a chain of selectors. A page snapshot holds those readings: for each chain
  \<open>querySelector(a) || querySelector(b) || ...\<close> the element found, if any. The match
  of the thread-id regular expression on the address and the \<open>search_query\<close>
  parameter are readings too.
\<close>

record element =
  textContent :: string
  elem_value :: "string option"  \<comment> \<open>\<open>.value\<close>, undefined on an element that is no form control\<close>
  data_title :: "string option"  \<comment> \<open>\<open>getAttribute('data-title')\<close>\<close>
  email_attr :: "string option"  \<comment> \<open>\<open>getAttribute('email')\<close>\<close>

record page =
  href :: string
  hostname :: string
  pathname :: string
  search_query :: "string option"
  doc_title :: string  \<comment> \<open>\<open>document.title\<close>\<close>
  title_el :: "element option"  \<comment> \<open>\<open>document.querySelector('title')\<close>\<close>
  gmail_subject_el :: "element option"
  gmail_thread_match :: "string option"
  gmail_sender_el :: "element option"
  meet_title_el :: "element option"
  meet_participant_els :: "element list"
  docs_title_el :: "element option"
  calendar_event_el :: "element option"
  yt_title_el :: "element option"
  yt_channel_el :: "element option"
  yt_channel_name_el :: "element option"

text \<open>\<open>a || b\<close> on strings, and \<open>s.replace(pat, rep)\<close> with a string pattern.\<close>

definition or_else :: "string \<Rightarrow> string \<Rightarrow> string" where
  "or_else a b = (if a = [] then b else a)"

fun replace_first :: "string \<Rightarrow> string \<Rightarrow> string \<Rightarrow> string" where
  "replace_first pat rep [] = (if pat = [] then rep else [])"
| "replace_first pat rep (c # cs) =
     (if take (length pat) (c # cs) = pat then rep @ drop (length pat) (c # cs)
      else c # replace_first pat rep cs)"

definition trimmed_text :: "element option \<Rightarrow> string" where
  \<comment> \<open>\<open>el.textContent?.trim() || ''\<close> when the element was found, else the initial \<open>''\<close>\<close>
  "trimmed_text el = (case el of None \<Rightarrow> [] | Some e \<Rightarrow> trim (textContent e))"

definition opt_string :: "string option \<Rightarrow> string" where
  "opt_string v = (case v of None \<Rightarrow> [] | Some x \<Rightarrow> x)"

definition detectGmailContext :: "page \<Rightarrow> ctx" where
  "detectGmailContext pg =
     (let title0 = trimmed_text (gmail_subject_el pg);
          tid = (if gmail_subject_el pg = None then [] else opt_string (gmail_thread_match pg));
          sndr = (case gmail_sender_el pg of None \<Rightarrow> [] | Some e \<Rightarrow> opt_string (email_attr e));
          title1 = (if title0 = [] then trim (replace_first '' - Gmail'' [] (doc_title pg))
                    else title0);
          k = (if sndr \<noteq> [] then ''gmail:'' @ sndr else ''gmail:'' @ title1)
      in \<lparr>app = ''gmail'', title = or_else title1 ''Gmail'', sender = sndr,
          participants = (if sndr \<noteq> [] then [sndr] else []), threadId = tid,
          channel = [], url = href pg, key = k, isLoading = False\<rparr>)"

definition detectMeetContext :: "page \<Rightarrow> ctx" where
  "detectMeetContext pg =
     (let title0 = trimmed_text (meet_title_el pg);
          title1 = (if title0 = [] then trim (replace_first '' - Google Meet'' [] (doc_title pg))
                    else title0);
          ps = filter (\<lambda>name. name \<noteq> []) (map (\<lambda>e. trim (textContent e)) (meet_participant_els pg))
      in \<lparr>app = ''meet'', title = or_else title1 ''Google Meet'', sender = [],
          participants = ps, threadId = [], channel = [], url = href pg,
          key = ''meet:'' @ title1, isLoading = False\<rparr>)"

definition detectDocsContext :: "page \<Rightarrow> ctx" where
  "detectDocsContext pg =
     (let title0 = (case docs_title_el pg of
                      None \<Rightarrow> []
                    | Some e \<Rightarrow> or_else (trim (textContent e)) (trim (opt_string (elem_value e))));
          title1 = (if title0 = [] then trim (replace_first '' - Google Docs'' [] (doc_title pg))
                    else title0)
      in \<lparr>app = ''docs'', title = or_else title1 ''Google Docs'', sender = [],
          participants = [], threadId = [], channel = [], url = href pg,
          key = ''doc:'' @ title1, isLoading = False\<rparr>)"

definition detectCalendarContext :: "page \<Rightarrow> ctx" where
  "detectCalendarContext pg =
     (let title0 = (case calendar_event_el pg of
                      None \<Rightarrow> []
                    | Some e \<Rightarrow>
                        or_else (opt_string (data_title e))
                          (or_else (trim (opt_string (elem_value e))) (trim (textContent e))));
          title1 = (if title0 = [] then ''Google Calendar'' else title0);
          k = (if title1 \<noteq> ''Google Calendar'' then ''calendar:'' @ title1 else ''calendar:general'')
      in \<lparr>app = ''calendar'', title = title1, sender = [], participants = [],
          threadId = [], channel = [], url = href pg, key = k, isLoading = False\<rparr>)"

definition isHomeUrl :: "string \<Rightarrow> bool" where
  "isHomeUrl u = (u = ''https://www.youtube.com/'' \<or> u = ''https://www.youtube.com'')"

definition youtubeVideoTitle :: "page \<Rightarrow> string" where
  \<comment> \<open>the title on a watch page: the heading, else the page title without its suffix\<close>
  "youtubeVideoTitle pg =
     (let title0 = trimmed_text (yt_title_el pg) in
      if title0 = [] \<or> title0 = ''YouTube'' then
        (let pageTitle = or_else (case title_el pg of None \<Rightarrow> [] | Some e \<Rightarrow> textContent e)
                                 (doc_title pg)
         in if pageTitle \<noteq> [] \<and> pageTitle \<noteq> ''YouTube'' \<and> \<not> str_includes pageTitle ''watch?v=''
            then trim (replace_first '' - YouTube'' [] pageTitle)
            else title0)
      else title0)"

definition youtubeOtherTitle :: "page \<Rightarrow> string" where
  \<comment> \<open>the title of a page that is neither the home page nor a watch page, from the path\<close>
  "youtubeOtherTitle pg =
     (let path = pathname pg in
      if str_includes path ''/results'' then
        (case search_query pg of
           None \<Rightarrow> ''YouTube Search''
         | Some q \<Rightarrow> if q = [] then ''YouTube Search'' else ''Search: '' @ q)
      else if str_includes path ''/channel/'' \<or> str_includes path ''/@'' then
        (case yt_channel_name_el pg of
           None \<Rightarrow> ''YouTube Channel''
         | Some e \<Rightarrow> or_else (trim (textContent e)) ''YouTube Channel'')
      else if str_includes path ''/feed/subscriptions'' then ''Subscriptions''
      else if str_includes path ''/feed/trending'' then ''Trending''
      else if str_includes path ''/feed/library'' then ''Library''
      else if str_includes path ''/feed/history'' then ''History''
      else ''YouTube'')"

definition detectYouTubeContext :: "page \<Rightarrow> ctx" where
  "detectYouTubeContext pg =
     (if isHomeUrl (href pg) then
        \<lparr>app = ''youtube'', title = ''Home Page'', sender = [], participants = [],
         threadId = [], channel = [], url = href pg, key = ''youtube:Home Page'',
         isLoading = False\<rparr>
      else
        (let isVideoPage = str_includes (href pg) ''watch?v='';
             ttl = (if isVideoPage then youtubeVideoTitle pg else youtubeOtherTitle pg);
             chan = (if isVideoPage then trimmed_text (yt_channel_el pg) else [])
         in \<lparr>app = ''youtube'', title = or_else ttl ''YouTube'', sender = [],
             participants = (if chan \<noteq> [] then [chan] else []), threadId = [],
             channel = chan, url = href pg, key = ''youtube:'' @ ttl, isLoading = False\<rparr>))"

definition detectContext :: "page \<Rightarrow> ctx option" where
  "detectContext pg =
     (if hostname pg = ''mail.google.com'' then Some (detectGmailContext pg)
      else if hostname pg = ''meet.google.com'' then Some (detectMeetContext pg)
      else if hostname pg = ''docs.google.com'' then Some (detectDocsContext pg)
      else if hostname pg = ''calendar.google.com'' then Some (detectCalendarContext pg)
      else if hostname pg = ''www.youtube.com'' then Some (detectYouTubeContext pg)
      else None)"

section \<open>Waiting for a stable context (content script, waitForContextAndUpdate)\<close>

text \<open>
  The content script's state: its own \<open>currentContext\<close> (here \<open>pageContext\<close>, the
  panel's global has the same name), \<open>sidebarOpen\<close>, whether the panel's iframe is
  there with a window, the messages posted to it so far, and the callbacks handed to
  \<open>setTimeout\<close> that have not run, each with the time in milliseconds at which it is
  due, ordered by that time and among equal times by registration.
\<close>

datatype timer_task =
  InitialDelay string  \<comment> \<open>the 2000 ms callback, with the \<open>url\<close> it closes over\<close>
  | Poll string nat    \<comment> \<open>\<open>checkAndUpdate\<close> again, with \<open>url\<close> and the attempts made\<close>

record content_script =
  pageContext :: "ctx option"
  sidebarOpen :: bool
  iframeWindow :: bool
  posted :: "message list"
  timers :: "(nat \<times> timer_task) list"

definition loadingContext :: "string \<Rightarrow> ctx" where
  "loadingContext u =
     \<lparr>app = ''youtube'', title = ''Loading...'', sender = [], participants = [],
      threadId = [], channel = [], url = u, key = ''youtube:loading'', isLoading = True\<rparr>"

definition postToSidebar :: "message \<Rightarrow> content_script \<Rightarrow> content_script" where
  \<comment> \<open>\<open>if (sidebarOpen) { if (iframe && iframe.contentWindow) postMessage(...) }\<close>\<close>
  "postToSidebar m r =
     (if sidebarOpen r \<and> iframeWindow r then r\<lparr>posted := posted r @ [m]\<rparr> else r)"

fun add_timer :: "nat \<times> timer_task \<Rightarrow> (nat \<times> timer_task) list \<Rightarrow> (nat \<times> timer_task) list" where
  "add_timer t [] = [t]"
| "add_timer t (x # xs) = (if fst t < fst x then t # x # xs else x # add_timer t xs)"

definition setTimeout :: "nat \<Rightarrow> timer_task \<Rightarrow> content_script \<Rightarrow> content_script" where
  "setTimeout due task r = r\<lparr>timers := add_timer (due, task) (timers r)\<rparr>"

definition waitForContextAndUpdate :: "bool \<Rightarrow> nat \<Rightarrow> page \<Rightarrow> content_script \<Rightarrow> content_script" where
  \<comment> \<open>\<open>forceUpdate\<close> is a parameter the body never reads\<close>
  "waitForContextAndUpdate forceUpdate now pg r =
     (let u = href pg;
          r1 = postToSidebar (CONTEXT_UPDATE (loadingContext u)) r
      in setTimeout (now + 2000) (InitialDelay u) r1)"

definition maxAttempts :: nat where
  "maxAttempts = 25"

definition hasRealTitle :: "ctx \<Rightarrow> bool" where
  "hasRealTitle c =
     (title c \<noteq> [] \<and> title c \<noteq> ''YouTube'' \<and> title c \<noteq> ''Loading...'' \<and>
      length (title c) > 0 \<and> \<not> str_includes (title c) ''watch?v='')"

definition updateContext :: "ctx \<Rightarrow> content_script \<Rightarrow> content_script" where
  "updateContext newContext r =
     postToSidebar (CONTEXT_UPDATE newContext) (r\<lparr>pageContext := Some newContext\<rparr>)"

text \<open>
  What one run of \<open>checkAndUpdate\<close> decides, after \<open>attempts++\<close>: commit the detected
  context, poll again in 200 ms, or give up.
\<close>

datatype decision = Commit ctx | Retry | GiveUp

definition decide :: "string \<Rightarrow> nat \<Rightarrow> ctx option \<Rightarrow> decision" where
  "decide u attempts newContext =
     (case newContext of
        None \<Rightarrow> if attempts < maxAttempts then Retry else GiveUp
      | Some c \<Rightarrow>
          if isHomeUrl u then Commit c
          else if app c = ''youtube'' \<and> str_includes u ''watch?v='' then
            (if hasRealTitle c \<or> attempts \<ge> maxAttempts then Commit c else Retry)
          else Commit c)"

definition checkAndUpdate :: "string \<Rightarrow> nat \<Rightarrow> nat \<Rightarrow> page \<Rightarrow> content_script \<Rightarrow> content_script" where
  \<comment> \<open>\<open>before\<close> is \<open>attempts\<close> on entry, \<open>now\<close> the time of the run, \<open>pg\<close> the page then\<close>
  "checkAndUpdate u before now pg r =
     (let attempts = before + 1 in
      case decide u attempts (detectContext pg) of
        Commit c \<Rightarrow> updateContext c r
      | Retry \<Rightarrow> setTimeout (now + 200) (Poll u attempts) r
      | GiveUp \<Rightarrow> r)"

definition runTimer :: "nat \<Rightarrow> page \<Rightarrow> timer_task \<Rightarrow> content_script \<Rightarrow> content_script" where
  "runTimer now pg task r =
     (case task of
        InitialDelay u \<Rightarrow> checkAndUpdate u 0 now pg r
      | Poll u n \<Rightarrow> checkAndUpdate u n now pg r)"

text \<open>
  The events of a run: a navigation trigger at a time, with the page as it is then, and
  the firing of the timer that is due first, with the page as it is when it fires. A
  timer fires at the time it is due. A run is a list of events, oldest first; that a
  trigger comes before the firing of a timer due later is said in the theorems, by
  their hypotheses on the times.
\<close>

datatype event = Trigger bool nat page | TimerFires page

fun step :: "event \<Rightarrow> content_script \<Rightarrow> content_script" where
  "step (Trigger forceUpdate now pg) r = waitForContextAndUpdate forceUpdate now pg r"
| "step (TimerFires pg) r =
     (case timers r of
        [] \<Rightarrow> r
      | (due, task) # rest \<Rightarrow> runTimer due pg task (r\<lparr>timers := rest\<rparr>))"

definition run :: "event list \<Rightarrow> content_script \<Rightarrow> content_script" where
  "run es r = fold step es r"

section \<open>Example contexts and panel states\<close>

text \<open>
  Two mail threads of one sender, a watch page before and after its title has rendered,
  a stored note, and a panel that shows a context with its notes, a draft in the
  textarea and a store.
\<close>

definition mailInvoice :: ctx where
  "mailInvoice =
     \<lparr>app = ''gmail'', title = ''Invoice'', sender = ''alice@example.com'',
      participants = [''alice@example.com''], threadId = ''a1'', channel = [],
      url = ''https://mail.google.com/mail/u/0/#inbox/a1'',
      key = ''gmail:alice@example.com'', isLoading = False\<rparr>"

definition mailLunch :: ctx where
  "mailLunch =
     \<lparr>app = ''gmail'', title = ''Lunch'', sender = ''alice@example.com'',
      participants = [''alice@example.com''], threadId = ''b2'', channel = [],
      url = ''https://mail.google.com/mail/u/0/#inbox/b2'',
      key = ''gmail:alice@example.com'', isLoading = False\<rparr>"

definition videoFallback :: ctx where
  "videoFallback =
     \<lparr>app = ''youtube'', title = ''YouTube'', sender = [], participants = [], threadId = [],
      channel = [], url = ''https://www.youtube.com/watch?v=abc'', key = ''youtube:'',
      isLoading = False\<rparr>"

definition videoReal :: ctx where
  "videoReal =
     \<lparr>app = ''youtube'', title = ''Real Title'', sender = [], participants = [], threadId = [],
      channel = [], url = ''https://www.youtube.com/watch?v=abc'', key = ''youtube:Real Title'',
      isLoading = False\<rparr>"

definition panel :: "ctx \<Rightarrow> note_obj list \<Rightarrow> string \<Rightarrow> store \<Rightarrow> sidebar" where
  "panel c ns draft st =
     \<lparr>currentContext = Some c, currentNotes = ns, relatedNotes = [], currentView = CurrentView,
      noteInput = draft, contextApp = app c, contextTitle = TitleText (title c),
      titleDimmed = False,
      notesList = (if ns = [] then EmptyState else NoteItems (rev (zip ns [0..<length ns]))),
      relatedSection = None, storage = st, reloadTimers = 0\<rparr>"

definition oldNote :: note_obj where
  "oldNote = \<lparr>note_text = ''pay by Friday'', timestamp = 500, note_context = mailInvoice\<rparr>"

definition noteAt :: "int \<Rightarrow> note_obj" where
  "noteAt t = \<lparr>note_text = ''agenda'', timestamp = t, note_context = mailInvoice\<rparr>"

definition budgetStore :: store where
  "budgetStore =
     [(''doc:Budget Review'', Notes [noteAt 10]),
      (''doc:Budget Plan'', Notes [noteAt 1, noteAt 2, noteAt 3, noteAt 4]),
      (''notes_index'', Other),
      (''meet:Budget sync'', Notes [noteAt 5, noteAt 6]),
      (''gmail:bob@example.com'', Notes [noteAt 7])]"

text \<open>
  Pages: a watch page with its heading (if rendered) and document title, and a mail
  thread. Two video addresses, the context a watch page yields, and a content script
  with the panel open and nothing pending.
\<close>

definition mkElement :: "string \<Rightarrow> element" where
  "mkElement t = \<lparr>textContent = t, elem_value = None, data_title = None, email_attr = None\<rparr>"

definition watchPage :: "string \<Rightarrow> string option \<Rightarrow> string \<Rightarrow> page" where
  "watchPage u heading dt =
     \<lparr>href = u, hostname = ''www.youtube.com'', pathname = ''/watch'', search_query = None,
      doc_title = dt, title_el = Some (mkElement dt), gmail_subject_el = None,
      gmail_thread_match = None, gmail_sender_el = None, meet_title_el = None,
      meet_participant_els = [], docs_title_el = None, calendar_event_el = None,
      yt_title_el = map_option mkElement heading, yt_channel_el = None,
      yt_channel_name_el = None\<rparr>"

definition videoA :: string where "videoA = ''https://www.youtube.com/watch?v=aaa''"
definition videoB :: string where "videoB = ''https://www.youtube.com/watch?v=bbb''"

definition videoCtx :: "string \<Rightarrow> string \<Rightarrow> string \<Rightarrow> ctx" where
  "videoCtx u t k =
     \<lparr>app = ''youtube'', title = t, sender = [], participants = [], threadId = [],
      channel = [], url = u, key = k, isLoading = False\<rparr>"

definition idleOpen :: content_script where
  "idleOpen = \<lparr>pageContext = None, sidebarOpen = True, iframeWindow = True, posted = [],
               timers = []\<rparr>"

text \<open>A search-results page of the video site.\<close>

definition searchPage :: page where
  "searchPage =
     \<lparr>href = ''https://www.youtube.com/results?search_query=cats'',
      hostname = ''www.youtube.com'', pathname = ''/results'', search_query = Some ''cats'',
      doc_title = ''cats - YouTube'', title_el = Some (mkElement ''cats - YouTube''),
      gmail_subject_el = None, gmail_thread_match = None, gmail_sender_el = None,
      meet_title_el = None, meet_participant_els = [], docs_title_el = None,
      calendar_event_el = None, yt_title_el = None, yt_channel_el = None,
      yt_channel_name_el = None\<rparr>"

definition mailPage :: page where
  "mailPage =
     \<lparr>href = ''https://mail.google.com/mail/u/0/#inbox/a1'', hostname = ''mail.google.com'',
      pathname = ''/mail/u/0/'', search_query = None,
      doc_title = ''Invoice - alice@example.com - Gmail'',
      title_el = Some (mkElement ''Invoice - alice@example.com - Gmail''),
      gmail_subject_el = Some (mkElement ''Invoice''), gmail_thread_match = Some ''a1'',
      gmail_sender_el = Some \<lparr>textContent = ''Alice'', elem_value = None, data_title = None,
                               email_attr = Some ''alice@example.com''\<rparr>,
      meet_title_el = None, meet_participant_els = [], docs_title_el = None,
      calendar_event_el = None, yt_title_el = None, yt_channel_el = None,
      yt_channel_name_el = None\<rparr>"

section \<open>Properties of the similarity rule\<close>

lemma tokens_of_empty: "filter significant (split_ws []) = []"
  by (simp add: split_ws_def significant_def)

lemma spec_tokens_eq: "spec_tokens t = set (filter significant (split_ws (toLowerCase t)))"
  by (auto simp: spec_tokens_def significant_def commonWords_def)

lemma common_count_pos:
  "(length (filter (\<lambda>w. w \<in> set ys) xs) > 0) = (set xs \<inter> set ys \<noteq> {})"
  by (induction xs) auto

lemma isSimilarTitle_sets:
  assumes "a \<noteq> []" "b \<noteq> []"
  shows "isSimilarTitle a b =
         (set (filter significant (split_ws a)) \<inter> set (filter significant (split_ws b)) \<noteq> {}
          \<and> a \<noteq> b)"
  using assms unfolding isSimilarTitle_def Let_def common_count_pos by auto

text \<open>
  Claim C6. Two titles are related exactly when, after lower-casing, white-space
  splitting and dropping the tokens of length at most 2 and the stop words, their token
  sets share a token and the lower-cased titles differ; "Budget Review" and
  "budget review" are therefore not related.
\<close>

theorem relatedTitles_iff_spec:
  "relatedTitles t1 t2 = spec_related t1 t2 \<and>
   relatedTitles ''Budget Review'' ''budget review'' = False"
proof
  show "relatedTitles t1 t2 = spec_related t1 t2"
  proof (cases "toLowerCase t1 = [] \<or> toLowerCase t2 = []")
    case True
    then have "filter significant (split_ws (toLowerCase t1)) = [] \<or>
               filter significant (split_ws (toLowerCase t2)) = []"
      using tokens_of_empty by auto
    then have "spec_tokens t1 = {} \<or> spec_tokens t2 = {}"
      by (metis spec_tokens_eq list.set(1))
    with True show ?thesis
      by (auto simp: relatedTitles_def isSimilarTitle_def spec_related_def)
  next
    case False
    then show ?thesis
      unfolding relatedTitles_def spec_related_def spec_tokens_eq
      by (intro isSimilarTitle_sets) simp_all
  qed
next
  have "toLowerCase ''Budget Review'' = ''budget review''"
    by (simp add: toLowerCase_def lower_char_def)
  moreover have "toLowerCase ''budget review'' = ''budget review''"
    by (simp add: toLowerCase_def lower_char_def)
  ultimately show "relatedTitles ''Budget Review'' ''budget review'' = False"
    by (simp add: relatedTitles_def isSimilarTitle_def)
qed

text \<open>Claim C6 on two titles that share the token "budget".\<close>

theorem relatedTitles_witness:
  "relatedTitles ''Q3 Budget Review'' ''budget plan'' \<and>
   spec_related ''Q3 Budget Review'' ''budget plan'' \<and>
   \<not> relatedTitles ''Budget Review'' ''budget review''"
proof -
  have l1: "toLowerCase ''Q3 Budget Review'' = ''q3 budget review''"
    by (simp add: toLowerCase_def lower_char_def)
  have l2: "toLowerCase ''budget plan'' = ''budget plan''"
    by (simp add: toLowerCase_def lower_char_def)
  have r: "relatedTitles ''Q3 Budget Review'' ''budget plan''"
    by (simp add: relatedTitles_def isSimilarTitle_def l1 l2 split_ws_def is_ws_def
        significant_def commonWords_def)
  with relatedTitles_iff_spec [of "''Q3 Budget Review''" "''budget plan''"]
  show ?thesis by simp
qed

section \<open>Properties of the related-notes scan\<close>

lemma annotate_key: "n \<in> set (annotate k ns) \<Longrightarrow> contextKey n = k"
  by (auto simp: annotate_def)

lemma relatedIn_key: "n \<in> set (relatedIn ck ct kv) \<Longrightarrow> contextKey n = fst kv \<and> fst kv \<noteq> ck"
  by (cases kv) (auto split: if_splits stored.splits dest: annotate_key)

lemma collectRelated_key: "n \<in> set (collectRelated st ck t) \<Longrightarrow> contextKey n \<noteq> ck"
  by (auto simp: collectRelated_def dest: relatedIn_key)

lemma recentRelated_subset: "set (recentRelated rs) \<subseteq> set rs"
  using set_take_subset [of 5 "sortNewest rs"] by (simp add: recentRelated_def sortNewest_def)

lemma recentRelated_rest:
  "mset rs - mset (recentRelated rs) = mset (drop 5 (sortNewest rs))"
proof -
  have "mset rs = mset (take 5 (sortNewest rs)) + mset (drop 5 (sortNewest rs))"
    by (metis append_take_drop_id mset_append mset_sort sortNewest_def)
  then show ?thesis by (simp add: recentRelated_def)
qed

lemma recentRelated_newest:
  assumes "n \<in> set (recentRelated rs)" and "m \<in> set (drop 5 (sortNewest rs))"
  shows "timestamp m \<le> timestamp n"
proof -
  have "sorted (map (\<lambda>n. - timestamp n) (take 5 (sortNewest rs) @ drop 5 (sortNewest rs)))"
    by (simp add: sortNewest_def)
  then have "\<forall>x\<in>set (take 5 (sortNewest rs)). \<forall>y\<in>set (drop 5 (sortNewest rs)).
               - timestamp x \<le> - timestamp y"
    unfolding map_append sorted_append by auto
  with assms show ?thesis by (auto simp: recentRelated_def)
qed

text \<open>
  Claim C7. Whatever the store, the current key and the current title, no surfaced
  related note comes from the bucket of the current key, at most 5 are surfaced, and
  they are the most recent: every related note left out is no newer than any note shown.
\<close>

theorem findRelated_no_self_at_most_5:
  "length (findRelated st k t) \<le> 5 \<and>
   length (findRelated st k t) = min 5 (length (collectRelated st k t)) \<and>
   (\<forall>n \<in> set (findRelated st k t). contextKey n \<noteq> k) \<and>
   (\<forall>n \<in> set (findRelated st k t).
      \<forall>m \<in># mset (collectRelated st k t) - mset (findRelated st k t).
        timestamp m \<le> timestamp n)"
proof (intro conjI ballI)
  show "length (findRelated st k t) \<le> 5"
    by (simp add: findRelated_def recentRelated_def)
  show "length (findRelated st k t) = min 5 (length (collectRelated st k t))"
    by (simp add: findRelated_def recentRelated_def sortNewest_def min.commute)
next
  fix n assume "n \<in> set (findRelated st k t)"
  then have "n \<in> set (collectRelated st k t)"
    using recentRelated_subset by (auto simp: findRelated_def)
  then show "contextKey n \<noteq> k" by (rule collectRelated_key)
next
  fix n m
  assume n: "n \<in> set (findRelated st k t)"
    and m: "m \<in># mset (collectRelated st k t) - mset (findRelated st k t)"
  from m have "m \<in> set (drop 5 (sortNewest (collectRelated st k t)))"
    by (simp add: findRelated_def recentRelated_rest)
  with n show "timestamp m \<le> timestamp n"
    by (auto simp: findRelated_def intro: recentRelated_newest)
qed

lemma budget_related:
  "map (\<lambda>n. (timestamp n, contextKey n, index n))
     (findRelated budgetStore ''doc:Budget Review'' ''Budget Review'') =
   [(6, ''meet:Budget sync'', 1), (5, ''meet:Budget sync'', 0), (4, ''doc:Budget Plan'', 3),
    (3, ''doc:Budget Plan'', 2), (2, ''doc:Budget Plan'', 1)]"
  by (simp add: findRelated_def recentRelated_def sortNewest_def collectRelated_def
      budgetStore_def noteAt_def keyTitle_def toLowerCase_def lower_char_def isSimilarTitle_def
      split_ws_def is_ws_def significant_def commonWords_def annotate_def upt_rec)

text \<open>Claim C7 on a store with three buckets about budgets, six related notes in all.\<close>

theorem findRelated_witness:
  "length (findRelated budgetStore ''doc:Budget Review'' ''Budget Review'') = 5 \<and>
   map contextKey (findRelated budgetStore ''doc:Budget Review'' ''Budget Review'') =
     [''meet:Budget sync'', ''meet:Budget sync'', ''doc:Budget Plan'', ''doc:Budget Plan'',
      ''doc:Budget Plan''] \<and>
   ''doc:Budget Review'' \<notin> set (map contextKey
      (findRelated budgetStore ''doc:Budget Review'' ''Budget Review''))"
proof -
  have m: "map contextKey (findRelated budgetStore ''doc:Budget Review'' ''Budget Review'') =
     [''meet:Budget sync'', ''meet:Budget sync'', ''doc:Budget Plan'', ''doc:Budget Plan'',
      ''doc:Budget Plan'']"
    using arg_cong [OF budget_related, of "map (\<lambda>t. fst (snd t))"] by (simp add: comp_def)
  from findRelated_no_self_at_most_5 [of budgetStore "''doc:Budget Review''" "''Budget Review''"]
  have "\<forall>n \<in> set (findRelated budgetStore ''doc:Budget Review'' ''Budget Review'').
          contextKey n \<noteq> ''doc:Budget Review''"
    by blast
  then have "''doc:Budget Review'' \<notin> set (map contextKey
      (findRelated budgetStore ''doc:Budget Review'' ''Budget Review''))"
    by auto
  moreover have "length (findRelated budgetStore ''doc:Budget Review'' ''Budget Review'') = 5"
    using arg_cong [OF m, of length] by simp
  ultimately show ?thesis using m by simp
qed

section \<open>Properties of the store operations of the panel\<close>

lemma collectRelated_update: "collectRelated (AList.update k v st) k t = collectRelated st k t"
  by (induction st) (auto simp: collectRelated_def)

lemma collectRelated_store_set: "collectRelated (store_set ok k v st) k t = collectRelated st k t"
  by (simp add: store_set_def collectRelated_update)

lemma bucket_update_same: "bucket (AList.update k (Notes ns) st) k = ns"
  by (simp add: bucket_def update_conv')

lemma bucket_update_other: "k' \<noteq> k \<Longrightarrow> bucket (AList.update k v st) k' = bucket st k'"
  by (simp add: bucket_def update_conv')

lemma splice1_beyond: "int (length xs) \<le> i \<Longrightarrow> splice1 i xs = xs"
  by (simp add: splice1_def Let_def)

lemma splice1_inside:
  "0 \<le> i \<Longrightarrow> i < int (length xs) \<Longrightarrow> splice1 i xs = take (nat i) xs @ drop (Suc (nat i)) xs"
  by (simp add: splice1_def Let_def nat_add_distrib)

lemma splice1_negative:
  "i < 0 \<Longrightarrow> xs \<noteq> [] \<Longrightarrow> length (splice1 i xs) = length xs - 1"
  by (auto simp: splice1_def Let_def max_def min_def)

text \<open>
  Claim C9. When the panel has a context and the textarea holds more than white space,
  adding a note (the write succeeding) and then loading the notes of the context gives
  a list whose last element is the note just made: the trimmed text, the time of the
  call and the context. The list is the bucket now stored under the context's key.
\<close>

theorem append_then_list_last:
  assumes "currentContext s = Some c" and "trim (noteInput s) \<noteq> []"
  shows "\<exists>s'. loadNotes (handleAddNote now True s) = Some s' \<and>
           currentNotes s' = bucket (storage (handleAddNote now True s)) (key c) \<and>
           currentNotes s' = currentNotes s @
             [\<lparr>note_text = trim (noteInput s), timestamp = now, note_context = c\<rparr>] \<and>
           currentNotes s' \<noteq> [] \<and>
           last (currentNotes s') =
             \<lparr>note_text = trim (noteInput s), timestamp = now, note_context = c\<rparr>"
  using assms
  by (simp add: handleAddNote_def loadNotes_def Let_def findRelatedNotes_def renderRelatedNotes_def
      renderNotes_def store_set_def update_conv' bucket_def)

text \<open>Claim C9 on a panel that shows a mail thread with one note, the draft " call back ".\<close>

theorem append_then_list_last_witness:
  "map_option (\<lambda>s'. last (currentNotes s'))
     (loadNotes (handleAddNote 1000 True (panel mailInvoice [oldNote] '' call back '' []))) =
   Some \<lparr>note_text = ''call back'', timestamp = 1000, note_context = mailInvoice\<rparr>"
proof -
  have c: "currentContext (panel mailInvoice [oldNote] '' call back '' []) = Some mailInvoice"
    by (simp add: panel_def)
  have t: "trim (noteInput (panel mailInvoice [oldNote] '' call back '' [])) = ''call back''"
    by (simp add: panel_def trim_def is_ws_def)
  from append_then_list_last [OF c, of 1000] t show ?thesis
    by auto
qed

lemma failed_add:
  "handleAddNote now False s = (handleAddNote now True s)\<lparr>storage := storage s\<rparr>"
proof (cases "currentContext s")
  case None
  then show ?thesis by (simp add: handleAddNote_def)
next
  case (Some c)
  show ?thesis
  proof (cases "trim (noteInput s) = []")
    case True
    with Some show ?thesis by (simp add: handleAddNote_def)
  next
    case False
    with Some show ?thesis
      by (intro sidebar.equality)
        (simp_all add: handleAddNote_def Let_def findRelatedNotes_def renderRelatedNotes_def
          renderNotes_def collectRelated_update store_set_def)
  qed
qed

lemma store_set_failed: "store_set False k v st = st"
  by (simp add: store_set_def)

lemma bucket_store_set_same:
  "bucket (store_set ok k (Notes (bucket st k)) st) k' = bucket st k'"
  by (cases "k' = k") (simp_all add: store_set_def bucket_update_same bucket_update_other)

text \<open>
  Claim C4 as the panel has it. A failed write is not reported: \<open>handleAddNote\<close> and
  the deletion of a note of the current context change \<open>currentNotes\<close> before they
  write, and end in the state of a successful write but for the store, which keeps its
  contents. So after a failed write \<open>currentNotes\<close> holds the note that was not stored,
  or lacks the note that is still stored. The deletion of a related note recomputes the
  related notes from the unchanged store.
\<close>

theorem failed_write_not_surfaced:
  "handleAddNote now False s = (handleAddNote now True s)\<lparr>storage := storage s\<rparr> \<and>
   handleDeleteNote i None False confirmed False s =
     map_option (\<lambda>s'. s'\<lparr>storage := storage s\<rparr>) (handleDeleteNote i None False confirmed True s) \<and>
   (currentContext s = Some c \<and> trim (noteInput s) \<noteq> [] \<longrightarrow>
      currentNotes (handleAddNote now False s) =
        currentNotes s @ [\<lparr>note_text = trim (noteInput s), timestamp = now, note_context = c\<rparr>] \<and>
      storage (handleAddNote now False s) = storage s) \<and>
   (currentContext s = Some c \<longrightarrow>
      (\<exists>s'. handleDeleteNote i None False True False s = Some s' \<and>
         currentNotes s' = splice1 i (currentNotes s) \<and> storage s' = storage s)) \<and>
   (k \<noteq> [] \<and> map_of (storage s) k \<noteq> Some Other \<longrightarrow>
      handleDeleteNote i (Some k) False True False s = Some (findRelatedNotes s))"
proof (intro conjI impI)
  show "handleAddNote now False s = (handleAddNote now True s)\<lparr>storage := storage s\<rparr>"
    by (rule failed_add)
  show "handleDeleteNote i None False confirmed False s =
     map_option (\<lambda>s'. s'\<lparr>storage := storage s\<rparr>) (handleDeleteNote i None False confirmed True s)"
    by (cases "currentContext s")
      (simp_all add: handleDeleteNote_def Let_def store_set_def renderNotes_def)
next
  assume "currentContext s = Some c \<and> trim (noteInput s) \<noteq> []"
  then show "currentNotes (handleAddNote now False s) =
        currentNotes s @ [\<lparr>note_text = trim (noteInput s), timestamp = now, note_context = c\<rparr>]"
    and "storage (handleAddNote now False s) = storage s"
    by (simp_all add: handleAddNote_def Let_def store_set_def findRelatedNotes_def
        renderRelatedNotes_def renderNotes_def)
next
  assume "currentContext s = Some c"
  then show "\<exists>s'. handleDeleteNote i None False True False s = Some s' \<and>
         currentNotes s' = splice1 i (currentNotes s) \<and> storage s' = storage s"
    by (simp add: handleDeleteNote_def Let_def store_set_def renderNotes_def)
next
  assume "k \<noteq> [] \<and> map_of (storage s) k \<noteq> Some Other"
  then show "handleDeleteNote i (Some k) False True False s = Some (findRelatedNotes s)"
    by (cases "map_of (storage s) k")
      (auto simp: handleDeleteNote_def Let_def store_set_def split: stored.splits)
qed

text \<open>Claim C4, amended, on a failed addition and a failed deletion in a mail thread.\<close>

theorem failed_write_not_surfaced_witness:
  "currentNotes (handleAddNote 1000 False (panel mailInvoice [oldNote] ''call back'' [])) =
     [oldNote, \<lparr>note_text = ''call back'', timestamp = 1000, note_context = mailInvoice\<rparr>] \<and>
   storage (handleAddNote 1000 False (panel mailInvoice [oldNote] ''call back'' [])) = [] \<and>
   map_option currentNotes
     (handleDeleteNote 0 None False True False (panel mailInvoice [oldNote] ''call back'' [])) =
     Some []"
proof -
  let ?s = "panel mailInvoice [oldNote] ''call back'' []"
  have c: "currentContext ?s = Some mailInvoice" "currentNotes ?s = [oldNote]" "storage ?s = []"
    by (simp_all add: panel_def)
  have t: "trim (noteInput ?s) = ''call back''"
    by (simp add: panel_def trim_def is_ws_def)
  have sp: "splice1 0 [oldNote] = []"
    by (simp add: splice1_def)
  note fw = failed_write_not_surfaced [of 1000 ?s 0 True mailInvoice "''gmail:x''"]
  have t': "currentContext ?s = Some mailInvoice \<and> trim (noteInput ?s) \<noteq> []"
    using c t by simp
  note a = fw [THEN conjunct2, THEN conjunct2, THEN conjunct1, THEN mp, OF t']
  note b = fw [THEN conjunct2, THEN conjunct2, THEN conjunct2, THEN conjunct1, THEN mp, OF c(1)]
  from b obtain s' where "handleDeleteNote 0 None False True False ?s = Some s'"
    and "currentNotes s' = splice1 0 (currentNotes ?s)"
    by blast
  then have "map_option currentNotes (handleDeleteNote 0 None False True False ?s) = Some []"
    by (simp add: c sp)
  with a show ?thesis by (simp add: c t)
qed

text \<open>
  Claim C4 fails as stated: with an empty list cached and a write that fails, the
  cached list holds the new note afterwards and the store holds nothing.
\<close>

theorem failed_write_cached_counterexample:
  "currentNotes (panel mailInvoice [] ''call back'' []) = [] \<and>
   currentNotes (handleAddNote 1000 False (panel mailInvoice [] ''call back'' [])) =
     [\<lparr>note_text = ''call back'', timestamp = 1000, note_context = mailInvoice\<rparr>] \<and>
   storage (handleAddNote 1000 False (panel mailInvoice [] ''call back'' [])) = []"
  by (simp add: handleAddNote_def panel_def trim_def is_ws_def store_set_def Let_def
      findRelatedNotes_def renderRelatedNotes_def renderNotes_def collectRelated_def)

text \<open>
  Claim C8 for the indices at or beyond the end. Deleting at such an index from the
  bucket of a stored key raises nothing and leaves every bucket as it was; from the
  notes of the current context it raises nothing and leaves \<open>currentNotes\<close> as it
  was, and every bucket too when \<open>currentNotes\<close> was the stored bucket.
\<close>

theorem delete_beyond_end_noop:
  "(int (length (bucket (storage s) k)) \<le> i \<and> (k \<noteq> [] \<or> fromAllView) \<and>
      map_of (storage s) k \<noteq> Some Other \<longrightarrow>
      (\<exists>s'. handleDeleteNote i (Some k) fromAllView True ok s = Some s' \<and>
         (\<forall>k'. bucket (storage s') k' = bucket (storage s) k'))) \<and>
   (int (length (currentNotes s)) \<le> i \<and> currentContext s = Some c \<longrightarrow>
      (\<exists>s'. handleDeleteNote i None False True ok s = Some s' \<and>
         currentNotes s' = currentNotes s \<and>
         (bucket (storage s) (key c) = currentNotes s \<longrightarrow>
            (\<forall>k'. bucket (storage s') k' = bucket (storage s) k'))))"
proof (intro conjI impI)
  assume a: "int (length (bucket (storage s) k)) \<le> i \<and> (k \<noteq> [] \<or> fromAllView) \<and>
      map_of (storage s) k \<noteq> Some Other"
  then have sp: "splice1 i (bucket (storage s) k) = bucket (storage s) k"
    by (simp add: splice1_beyond)
  have st: "storage (findRelatedNotes x) = storage x" for x
    by (simp add: findRelatedNotes_def renderRelatedNotes_def split: option.splits)
  from a show "\<exists>s'. handleDeleteNote i (Some k) fromAllView True ok s = Some s' \<and>
         (\<forall>k'. bucket (storage s') k' = bucket (storage s) k')"
    by (cases "map_of (storage s) k")
      (auto simp: handleDeleteNote_def Let_def sp st bucket_store_set_same split: stored.splits)
next
  assume a: "int (length (currentNotes s)) \<le> i \<and> currentContext s = Some c"
  then have sp: "splice1 i (currentNotes s) = currentNotes s"
    by (simp add: splice1_beyond)
  from a show "\<exists>s'. handleDeleteNote i None False True ok s = Some s' \<and>
         currentNotes s' = currentNotes s \<and>
         (bucket (storage s) (key c) = currentNotes s \<longrightarrow>
            (\<forall>k'. bucket (storage s') k' = bucket (storage s) k'))"
    using bucket_store_set_same [of ok "key c" "storage s"]
    by (auto simp: handleDeleteNote_def Let_def sp renderNotes_def)
qed

text \<open>Claim C8, amended, at index 1 of a bucket of one note, on both paths.\<close>

theorem delete_beyond_end_noop_witness:
  "map_option (\<lambda>s'. bucket (storage s') ''doc:Plan'')
     (handleDeleteNote 1 (Some ''doc:Plan'') False True True
        (panel mailInvoice [] [] [(''doc:Plan'', Notes [oldNote])])) = Some [oldNote] \<and>
   map_option currentNotes
     (handleDeleteNote 1 None False True True
        (panel mailInvoice [oldNote] [] [(''gmail:alice@example.com'', Notes [oldNote])])) =
     Some [oldNote]"
proof -
  let ?s = "panel mailInvoice [] [] [(''doc:Plan'', Notes [oldNote])]"
  let ?t = "panel mailInvoice [oldNote] [] [(''gmail:alice@example.com'', Notes [oldNote])]"
  have a: "bucket (storage ?s) ''doc:Plan'' = [oldNote]" "map_of (storage ?s) ''doc:Plan'' \<noteq> Some Other"
    by (simp_all add: panel_def bucket_def)
  have b: "currentNotes ?t = [oldNote]" "currentContext ?t = Some mailInvoice"
    by (simp_all add: panel_def)
  from delete_beyond_end_noop [of ?s "''doc:Plan''" 1 False True mailInvoice] a
  have 1: "map_option (\<lambda>s'. bucket (storage s') ''doc:Plan'')
     (handleDeleteNote 1 (Some ''doc:Plan'') False True True ?s) = Some [oldNote]"
    by auto
  from delete_beyond_end_noop [of ?t "''doc:Plan''" 1 False True mailInvoice] b
  have 2: "map_option currentNotes (handleDeleteNote 1 None False True True ?t) = Some [oldNote]"
    by auto
  from 1 2 show ?thesis by simp
qed

text \<open>
  Claim C8 fails for negative indices, which \<open>splice\<close> counts from the end: index
  \<open>-1\<close> is outside the range of a bucket of one note, and deleting there empties it.
\<close>

theorem delete_negative_index_counterexample:
  "\<not> (0 \<le> (- 1 :: int) \<and> (- 1 :: int) < int (length (bucket [(''doc:Plan'', Notes [oldNote])] ''doc:Plan''))) \<and>
   bucket [(''doc:Plan'', Notes [oldNote])] ''doc:Plan'' = [oldNote] \<and>
   map_option (\<lambda>s'. bucket (storage s') ''doc:Plan'')
     (handleDeleteNote (- 1) (Some ''doc:Plan'') False True True
        (panel mailInvoice [] [] [(''doc:Plan'', Notes [oldNote])])) = Some []"
  by (simp add: handleDeleteNote_def bucket_def panel_def splice1_def store_set_def Let_def
      findRelatedNotes_def renderRelatedNotes_def collectRelated_def)

text \<open>
  Claim C3 at a failing input. The panel shows a mail thread; the loading placeholder
  arrives and becomes \<open>currentContext\<close>; the user submits "call back". The note, and
  the cached note of the mail thread before it, are stored under \<open>youtube:loading\<close>.
\<close>

theorem loading_key_written:
  "isLoading (loadingContext ''https://www.youtube.com/watch?v=abc'') \<and>
   bucket (storage (handleAddNote 1000 True
      ((onMessage (CONTEXT_UPDATE (loadingContext ''https://www.youtube.com/watch?v=abc''))
          (panel mailInvoice [oldNote] [] [(''gmail:alice@example.com'', Notes [oldNote])]))
       \<lparr>noteInput := ''call back''\<rparr>)))
     ''youtube:loading'' =
     [oldNote, \<lparr>note_text = ''call back'', timestamp = 1000,
                note_context = loadingContext ''https://www.youtube.com/watch?v=abc''\<rparr>]"
  by (simp add: handleAddNote_def onMessage_def showLoadingState_def panel_def trim_def is_ws_def
      store_set_def Let_def loadingContext_def bucket_def
      findRelatedNotes_def renderRelatedNotes_def renderNotes_def collectRelated_def)

section \<open>Properties of the panel's message listener\<close>

lemma onMessage_reload:
  assumes "\<not> isLoading c"
    and "case currentContext s of None \<Rightarrow> True
         | Some p \<Rightarrow> url p = [] \<or> url p \<noteq> url c \<or> title p = ''Loading...''"
  shows "onMessage (CONTEXT_UPDATE c) s = reloadExtension (s\<lparr>currentContext := Some c\<rparr>)"
  using assms by (auto simp: onMessage_def Let_def split: option.splits)

lemma reloadExtension_fields:
  "noteInput (reloadExtension s) = [] \<and> notesList (reloadExtension s) = LoadingItems \<and>
   relatedSection (reloadExtension s) = None \<and> currentView (reloadExtension s) = CurrentView \<and>
   reloadTimers (reloadExtension s) = reloadTimers s + 1 \<and>
   currentContext (reloadExtension s) = currentContext s \<and>
   storage (reloadExtension s) = storage s"
  by (cases "currentView s") (simp_all add: reloadExtension_def showLoadingState_def switchView_def Let_def)

lemma reloadTimeout_result:
  assumes "currentContext s = Some c" and "map_of (storage s) (key c) \<noteq> Some Other"
  shows "\<exists>s'. reloadTimeout s = Some s' \<and> currentNotes s' = bucket (storage s) (key c) \<and>
           relatedSection s' =
             (if collectRelated (storage s) (key c) (title c) = [] then None
              else Some (findRelated (storage s) (key c) (title c))) \<and>
           noteInput s' = noteInput s"
proof -
  have "map_of (storage s) (key c) = None \<or> (\<exists>ns. map_of (storage s) (key c) = Some (Notes ns))"
    using assms(2) by (cases "map_of (storage s) (key c)") (auto intro: stored.exhaust)
  then show ?thesis
    using assms(1)
    by (auto simp: reloadTimeout_def loadNotes_def updateContextDisplay_def bucket_def
        findRelatedNotes_def renderRelatedNotes_def renderNotes_def hideLoadingState_def
        findRelated_def)
qed

text \<open>
  Claim C1 as the listener has it: it compares addresses, not keys. A context that is
  not the loading placeholder resets the panel (empty textarea, the list blanked, the
  related notes hidden, a reload scheduled that loads the bucket of the new key and
  recomputes the related notes) when there is no previous address, when the new address
  differs from the previous one, or when the previous title is "Loading...". With the
  same address it only refreshes the header: every other field, the textarea included,
  stays, whatever the keys. The loading placeholder blanks the list and hides the
  related notes, and leaves the textarea.
\<close>

theorem context_update_by_url:
  "(\<not> isLoading c \<and>
      (case currentContext s of None \<Rightarrow> True
       | Some p \<Rightarrow> url p = [] \<or> url p \<noteq> url c \<or> title p = ''Loading...'') \<longrightarrow>
      noteInput (onMessage (CONTEXT_UPDATE c) s) = [] \<and>
      notesList (onMessage (CONTEXT_UPDATE c) s) = LoadingItems \<and>
      relatedSection (onMessage (CONTEXT_UPDATE c) s) = None \<and>
      currentContext (onMessage (CONTEXT_UPDATE c) s) = Some c \<and>
      reloadTimers (onMessage (CONTEXT_UPDATE c) s) = reloadTimers s + 1 \<and>
      (map_of (storage s) (key c) \<noteq> Some Other \<longrightarrow>
         (\<exists>s'. reloadTimeout (onMessage (CONTEXT_UPDATE c) s) = Some s' \<and>
            noteInput s' = [] \<and>
            currentNotes s' = bucket (storage s) (key c) \<and>
            relatedSection s' =
              (if collectRelated (storage s) (key c) (title c) = [] then None
               else Some (findRelated (storage s) (key c) (title c)))))) \<and>
   (\<not> isLoading c \<and>
      (\<exists>p. currentContext s = Some p \<and> url p \<noteq> [] \<and> url p = url c \<and>
           title p \<noteq> ''Loading...'') \<longrightarrow>
      onMessage (CONTEXT_UPDATE c) s =
        s\<lparr>currentContext := Some c, contextApp := app c, contextTitle := TitleText (title c)\<rparr>) \<and>
   (isLoading c \<longrightarrow>
      onMessage (CONTEXT_UPDATE c) s =
        s\<lparr>currentContext := Some c, contextTitle := LoadingTitle, titleDimmed := True,
          notesList := LoadingItems, relatedSection := None\<rparr>)"
proof (intro conjI impI)
  assume a: "\<not> isLoading c \<and>
      (case currentContext s of None \<Rightarrow> True
       | Some p \<Rightarrow> url p = [] \<or> url p \<noteq> url c \<or> title p = ''Loading...'')"
  let ?s1 = "s\<lparr>currentContext := Some c\<rparr>"
  from a have eq: "onMessage (CONTEXT_UPDATE c) s = reloadExtension ?s1"
    by (intro onMessage_reload) simp_all
  show "noteInput (onMessage (CONTEXT_UPDATE c) s) = []"
    and "notesList (onMessage (CONTEXT_UPDATE c) s) = LoadingItems"
    and "relatedSection (onMessage (CONTEXT_UPDATE c) s) = None"
    and "currentContext (onMessage (CONTEXT_UPDATE c) s) = Some c"
    and "reloadTimers (onMessage (CONTEXT_UPDATE c) s) = reloadTimers s + 1"
    using reloadExtension_fields [of ?s1] by (simp_all add: eq)
  assume b: "map_of (storage s) (key c) \<noteq> Some Other"
  have f: "currentContext (reloadExtension ?s1) = Some c"
    "storage (reloadExtension ?s1) = storage s"
    "noteInput (reloadExtension ?s1) = []"
    using reloadExtension_fields [of ?s1] by simp_all
  from b f have "map_of (storage (reloadExtension ?s1)) (key c) \<noteq> Some Other"
    by simp
  from reloadTimeout_result [OF f(1) this]
  show "\<exists>s'. reloadTimeout (onMessage (CONTEXT_UPDATE c) s) = Some s' \<and>
            noteInput s' = [] \<and>
            currentNotes s' = bucket (storage s) (key c) \<and>
            relatedSection s' =
              (if collectRelated (storage s) (key c) (title c) = [] then None
               else Some (findRelated (storage s) (key c) (title c)))"
    unfolding eq f by auto
next
  assume "\<not> isLoading c \<and>
      (\<exists>p. currentContext s = Some p \<and> url p \<noteq> [] \<and> url p = url c \<and>
           title p \<noteq> ''Loading...'')"
  then show "onMessage (CONTEXT_UPDATE c) s =
        s\<lparr>currentContext := Some c, contextApp := app c, contextTitle := TitleText (title c)\<rparr>"
    by (auto simp: onMessage_def Let_def updateContextDisplay_def)
next
  assume "isLoading c"
  then show "onMessage (CONTEXT_UPDATE c) s =
        s\<lparr>currentContext := Some c, contextTitle := LoadingTitle, titleDimmed := True,
          notesList := LoadingItems, relatedSection := None\<rparr>"
    by (simp add: onMessage_def showLoadingState_def)
qed

text \<open>
  Claim C1, amended, on its three cases: a new address, the same address, and the
  loading placeholder.
\<close>

theorem context_update_by_url_witness:
  "noteInput (onMessage (CONTEXT_UPDATE mailLunch) (panel mailInvoice [oldNote] ''draft'' [])) = [] \<and>
   reloadTimers (onMessage (CONTEXT_UPDATE mailLunch) (panel mailInvoice [oldNote] ''draft'' [])) = 1 \<and>
   noteInput (onMessage (CONTEXT_UPDATE videoReal) (panel videoFallback [] ''draft'' [])) = ''draft'' \<and>
   noteInput (onMessage (CONTEXT_UPDATE (loadingContext ''u'')) (panel mailInvoice [oldNote] ''draft'' []))
     = ''draft''"
proof -
  let ?s = "panel mailInvoice [oldNote] ''draft'' []"
  let ?v = "panel videoFallback [] ''draft'' []"
  have 1: "\<not> isLoading mailLunch \<and>
      (case currentContext ?s of None \<Rightarrow> True
       | Some p \<Rightarrow> url p = [] \<or> url p \<noteq> url mailLunch \<or> title p = ''Loading...'')"
    by (simp add: panel_def mailLunch_def mailInvoice_def)
  have 2: "\<not> isLoading videoReal \<and>
      (\<exists>p. currentContext ?v = Some p \<and> url p \<noteq> [] \<and> url p = url videoReal \<and>
           title p \<noteq> ''Loading...'')"
    by (simp add: panel_def videoReal_def videoFallback_def)
  have 3: "isLoading (loadingContext ''u'')"
    by (simp add: loadingContext_def)
  note a0 = context_update_by_url [of mailLunch ?s, THEN conjunct1, THEN mp, OF 1]
  have a: "noteInput (onMessage (CONTEXT_UPDATE mailLunch) ?s) = []"
    "reloadTimers (onMessage (CONTEXT_UPDATE mailLunch) ?s) = 1"
    using a0 by (simp_all add: panel_def)
  note b0 = context_update_by_url [of videoReal ?v, THEN conjunct2, THEN conjunct1, THEN mp, OF 2]
  have b: "noteInput (onMessage (CONTEXT_UPDATE videoReal) ?v) = ''draft''"
    unfolding b0 by (simp add: panel_def)
  note c0 = context_update_by_url [of "loadingContext ''u''" ?s, THEN conjunct2, THEN conjunct2,
      THEN mp, OF 3]
  have c: "noteInput (onMessage (CONTEXT_UPDATE (loadingContext ''u'')) ?s) = ''draft''"
    unfolding c0 by (simp add: panel_def)
  from a b c show ?thesis by simp
qed

text \<open>
  Claim C1 fails as stated, both ways. On a watch page the title arrives late: the key
  changes, the address does not, and the draft stays. Two mail threads of one sender
  share a key: the address changes and the draft is cleared.
\<close>

theorem context_update_key_counterexample:
  "key videoReal \<noteq> key videoFallback \<and>
   noteInput (onMessage (CONTEXT_UPDATE videoReal) (panel videoFallback [] ''draft'' [])) = ''draft'' \<and>
   key mailLunch = key mailInvoice \<and>
   noteInput (onMessage (CONTEXT_UPDATE mailLunch) (panel mailInvoice [] ''draft'' [])) = []"
  by (simp add: onMessage_def panel_def videoReal_def videoFallback_def mailLunch_def
      mailInvoice_def reloadExtension_def updateContextDisplay_def showLoadingState_def
      switchView_def Let_def)

section \<open>Properties of context detection and of the polling cycle\<close>

lemma detect_fallback:
  "detectContext (watchPage videoA None ''YouTube'') = Some (videoCtx videoA ''YouTube'' ''youtube:'')"
  by (simp add: detectContext_def detectYouTubeContext_def watchPage_def videoA_def videoCtx_def
      isHomeUrl_def youtubeVideoTitle_def trimmed_text_def or_else_def mkElement_def Let_def)

lemma detect_real:
  "detectContext (watchPage videoA (Some ''Real Title'') ''Real Title - YouTube'') =
   Some (videoCtx videoA ''Real Title'' ''youtube:Real Title'')"
  by (simp add: detectContext_def detectYouTubeContext_def watchPage_def videoA_def videoCtx_def
      isHomeUrl_def youtubeVideoTitle_def trimmed_text_def or_else_def mkElement_def Let_def
      trim_def is_ws_def)

lemma detect_app:
  "detectContext pg = Some c \<Longrightarrow>
   app c \<in> {''gmail'', ''meet'', ''docs'', ''calendar'', ''youtube''} \<and>
   (app c = ''youtube'') = (hostname pg = ''www.youtube.com'') \<and> \<not> isLoading c"
  by (auto simp: detectContext_def detectGmailContext_def detectMeetContext_def
      detectDocsContext_def detectCalendarContext_def detectYouTubeContext_def Let_def
      split: if_splits)

lemma watch_not_home: "str_includes u ''watch?v='' \<Longrightarrow> \<not> isHomeUrl u"
  by (auto simp: isHomeUrl_def)

lemma decide_watch:
  assumes "str_includes u ''watch?v=''" and "app c = ''youtube''"
  shows "decide u n (Some c) = (if hasRealTitle c \<or> maxAttempts \<le> n then Commit c else Retry)"
  using assms watch_not_home [OF assms(1)] by (simp add: decide_def)

lemma step_poll_retry:
  assumes "decide u (Suc a) (detectContext p) = Retry"
  shows "step (TimerFires p) (r\<lparr>timers := [(d, Poll u a)]\<rparr>) =
         r\<lparr>timers := [(d + 200, Poll u (Suc a))]\<rparr>"
  using assms by (simp add: runTimer_def checkAndUpdate_def setTimeout_def)

lemma step_poll_commit:
  assumes "decide u (Suc a) (detectContext p) = Commit c"
  shows "step (TimerFires p) (r\<lparr>timers := [(d, Poll u a)]\<rparr>) =
         updateContext c (r\<lparr>timers := []\<rparr>)"
  using assms by (simp add: runTimer_def checkAndUpdate_def)

lemma run_polls_retry:
  assumes "\<forall>p\<in>set ps. \<forall>n < maxAttempts. decide u n (detectContext p) = Retry"
    and "a + length ps < maxAttempts"
  shows "run (map TimerFires ps) (r\<lparr>timers := [(d, Poll u a)]\<rparr>) =
         r\<lparr>timers := [(d + 200 * length ps, Poll u (a + length ps))]\<rparr>"
  using assms
proof (induction ps arbitrary: d a)
  case Nil
  then show ?case by (simp add: run_def)
next
  case (Cons p ps)
  have "decide u (Suc a) (detectContext p) = Retry"
    using Cons.prems by simp
  then have "run (map TimerFires (p # ps)) (r\<lparr>timers := [(d, Poll u a)]\<rparr>) =
             run (map TimerFires ps) (r\<lparr>timers := [(d + 200, Poll u (Suc a))]\<rparr>)"
    using step_poll_retry [where r = r and d = d] by (simp add: run_def)
  also have "\<dots> = r\<lparr>timers := [(d + 200 + 200 * length ps, Poll u (Suc a + length ps))]\<rparr>"
    using Cons.prems by (intro Cons.IH) simp_all
  finally show ?case by simp
qed

lemma step_initial_delay:
  "step (TimerFires p) (r\<lparr>timers := [(d, InitialDelay u)]\<rparr>) =
   step (TimerFires p) (r\<lparr>timers := [(d, Poll u 0)]\<rparr>)"
  by (simp add: runTimer_def)

lemma run_initial_delay:
  "ps \<noteq> [] \<Longrightarrow>
   run (map TimerFires ps) (r\<lparr>timers := [(d, InitialDelay u)]\<rparr>) =
   run (map TimerFires ps) (r\<lparr>timers := [(d, Poll u 0)]\<rparr>)"
  by (cases ps) (simp_all add: run_def step_initial_delay del: step.simps)

lemma run_trigger: "run (Trigger f now pg # es) r = run es (waitForContextAndUpdate f now pg r)"
  by (simp add: run_def)

lemma wait_idle:
  assumes "timers r = []"
  shows "waitForContextAndUpdate f now pg r =
         (postToSidebar (CONTEXT_UPDATE (loadingContext (href pg))) r)
           \<lparr>timers := [(now + 2000, InitialDelay (href pg))]\<rparr>"
  using assms by (simp add: waitForContextAndUpdate_def setTimeout_def postToSidebar_def Let_def)

lemma wait_fields:
  "pageContext (waitForContextAndUpdate f now pg r) = pageContext r \<and>
   sidebarOpen (waitForContextAndUpdate f now pg r) = sidebarOpen r \<and>
   iframeWindow (waitForContextAndUpdate f now pg r) = iframeWindow r \<and>
   posted (waitForContextAndUpdate f now pg r) =
     posted r @ (if sidebarOpen r \<and> iframeWindow r
                 then [CONTEXT_UPDATE (loadingContext (href pg))] else [])"
  by (simp add: waitForContextAndUpdate_def setTimeout_def postToSidebar_def Let_def)

lemma cycle_waits:
  assumes watch: "str_includes (href pg0) ''watch?v=''"
    and idle: "timers r = []"
    and bare: "\<forall>p\<in>set ps. \<exists>c. detectContext p = Some c \<and> app c = ''youtube'' \<and> \<not> hasRealTitle c"
    and len: "length ps < maxAttempts"
    and k: "k \<le> length ps"
  shows "pageContext (run (Trigger f now pg0 # map TimerFires (take k ps)) r) = pageContext r \<and>
         posted (run (Trigger f now pg0 # map TimerFires (take k ps)) r) =
           posted (waitForContextAndUpdate f now pg0 r)"
proof (cases "take k ps = []")
  case True
  show ?thesis unfolding True by (simp add: run_def wait_fields)
next
  case False
  let ?w = "postToSidebar (CONTEXT_UPDATE (loadingContext (href pg0))) r"
  have retry: "\<forall>p\<in>set (take k ps). \<forall>n < maxAttempts. decide (href pg0) n (detectContext p) = Retry"
    using bare watch by (auto dest!: in_set_takeD simp: decide_watch)
  have "run (Trigger f now pg0 # map TimerFires (take k ps)) r =
        run (map TimerFires (take k ps)) (?w\<lparr>timers := [(now + 2000, Poll (href pg0) 0)]\<rparr>)"
    using False by (simp add: run_trigger wait_idle [OF idle] run_initial_delay)
  also have "\<dots> = ?w\<lparr>timers := [(now + 2000 + 200 * length (take k ps),
                                  Poll (href pg0) (0 + length (take k ps)))]\<rparr>"
    using retry len k by (intro run_polls_retry) simp_all
  finally show ?thesis
    by (simp add: wait_fields postToSidebar_def)
qed

lemma cycle_commits:
  assumes watch: "str_includes (href pg0) ''watch?v=''"
    and idle: "timers r = []"
    and bare: "\<forall>p\<in>set ps. \<exists>c. detectContext p = Some c \<and> app c = ''youtube'' \<and> \<not> hasRealTitle c"
    and len: "length ps < maxAttempts"
    and last: "detectContext q = Some c" "app c = ''youtube''"
      "hasRealTitle c \<or> Suc (length ps) = maxAttempts"
  shows "run (Trigger f now pg0 # map TimerFires (ps @ [q])) r =
         updateContext c ((waitForContextAndUpdate f now pg0 r)\<lparr>timers := []\<rparr>)"
proof -
  let ?w = "postToSidebar (CONTEXT_UPDATE (loadingContext (href pg0))) r"
  have retry: "\<forall>p\<in>set ps. \<forall>n < maxAttempts. decide (href pg0) n (detectContext p) = Retry"
    using bare watch by (auto simp: decide_watch)
  have commit: "decide (href pg0) (Suc (length ps)) (detectContext q) = Commit c"
    using last watch by (auto simp: decide_watch)
  have "run (Trigger f now pg0 # map TimerFires (ps @ [q])) r =
        run (map TimerFires (ps @ [q])) (?w\<lparr>timers := [(now + 2000, Poll (href pg0) 0)]\<rparr>)"
    by (simp only: run_trigger wait_idle [OF idle]) (rule run_initial_delay, simp)
  also have "\<dots> = step (TimerFires q)
                     (run (map TimerFires ps) (?w\<lparr>timers := [(now + 2000, Poll (href pg0) 0)]\<rparr>))"
    by (simp add: run_def)
  also have "run (map TimerFires ps) (?w\<lparr>timers := [(now + 2000, Poll (href pg0) 0)]\<rparr>) =
             ?w\<lparr>timers := [(now + 2000 + 200 * length ps, Poll (href pg0) (0 + length ps))]\<rparr>"
    using retry len by (intro run_polls_retry) simp_all
  also have "step (TimerFires q) \<dots> = updateContext c (?w\<lparr>timers := []\<rparr>)"
    using commit step_poll_commit [where r = ?w and a = "length ps"] by simp
  finally show ?thesis by (simp add: wait_idle [OF idle])
qed

lemma bare_not_real: "title c = ''YouTube'' \<Longrightarrow> \<not> hasRealTitle c"
  by (simp add: hasRealTitle_def)

lemma real_title_real: "title c = ''Real Title'' \<Longrightarrow> hasRealTitle c"
  by (simp add: hasRealTitle_def)

text \<open>
  Claim C5 for a cycle that runs alone. A trigger on a watch page arrives while no
  timer of another cycle is pending, and no other trigger follows. The first 10 polls
  each detect a video-site context titled "YouTube", poll 11 detects one titled
  "Real Title". Then no context is committed through poll 10 (the page context and the
  messages posted are those right after the trigger), and poll 11 commits exactly the
  "Real Title" context and leaves no timer. On a watch page, before the 25th attempt, a
  context is committed exactly when its title is non-empty, is not "YouTube", is not
  "Loading..." and holds no "watch?v="; otherwise the poll is repeated. At the 25th
  attempt whatever was detected is committed: after 24 polls without a real title,
  poll 25 commits its context.
\<close>

theorem watch_page_stabilization:
  assumes watch: "str_includes (href pg0) ''watch?v=''"
    and idle: "timers r = []"
    and polls: "length ps = 10"
    and bare: "\<forall>p\<in>set ps. \<exists>c. detectContext p = Some c \<and> app c = ''youtube'' \<and>
                 title c = ''YouTube''"
    and real: "detectContext p11 = Some c11" "app c11 = ''youtube''" "title c11 = ''Real Title''"
  shows "(\<forall>k\<le>10.
           pageContext (run (Trigger f now pg0 # map TimerFires (take k ps)) r) = pageContext r \<and>
           posted (run (Trigger f now pg0 # map TimerFires (take k ps)) r) =
             posted (waitForContextAndUpdate f now pg0 r)) \<and>
         pageContext (run (Trigger f now pg0 # map TimerFires (ps @ [p11])) r) = Some c11 \<and>
         posted (run (Trigger f now pg0 # map TimerFires (ps @ [p11])) r) =
           posted (waitForContextAndUpdate f now pg0 r) @
           (if sidebarOpen r \<and> iframeWindow r then [CONTEXT_UPDATE c11] else []) \<and>
         timers (run (Trigger f now pg0 # map TimerFires (ps @ [p11])) r) = [] \<and>
         (\<forall>u n c. str_includes u ''watch?v='' \<and> app c = ''youtube'' \<and> n < maxAttempts \<longrightarrow>
            decide u n (Some c) =
              (if title c \<noteq> [] \<and> title c \<noteq> ''YouTube'' \<and> title c \<noteq> ''Loading...'' \<and>
                  \<not> str_includes (title c) ''watch?v=''
               then Commit c else Retry)) \<and>
         (\<forall>u c. decide u maxAttempts (Some c) = Commit c) \<and>
         (\<forall>qs q c. length qs = 24 \<and>
            (\<forall>p\<in>set qs. \<exists>c'. detectContext p = Some c' \<and> app c' = ''youtube'' \<and>
                 \<not> hasRealTitle c') \<and>
            detectContext q = Some c \<and> app c = ''youtube'' \<longrightarrow>
            pageContext (run (Trigger f now pg0 # map TimerFires (qs @ [q])) r) = Some c)"
proof (intro conjI allI impI)
  have bare': "\<forall>p\<in>set ps. \<exists>c. detectContext p = Some c \<and> app c = ''youtube'' \<and> \<not> hasRealTitle c"
    using bare bare_not_real by blast
  have len: "length ps < maxAttempts"
    using polls by (simp add: maxAttempts_def)
  {
    fix k :: nat assume "k \<le> 10"
    then have "k \<le> length ps" using polls by simp
    from cycle_waits [OF watch idle bare' len this]
    show "pageContext (run (Trigger f now pg0 # map TimerFires (take k ps)) r) = pageContext r"
      and "posted (run (Trigger f now pg0 # map TimerFires (take k ps)) r) =
             posted (waitForContextAndUpdate f now pg0 r)"
      by simp_all
  }
  have fin: "run (Trigger f now pg0 # map TimerFires (ps @ [p11])) r =
             updateContext c11 ((waitForContextAndUpdate f now pg0 r)\<lparr>timers := []\<rparr>)"
    using real by (intro cycle_commits [OF watch idle bare' len]) (simp_all add: real_title_real)
  show "pageContext (run (Trigger f now pg0 # map TimerFires (ps @ [p11])) r) = Some c11"
    unfolding fin by (simp add: updateContext_def postToSidebar_def)
  show "posted (run (Trigger f now pg0 # map TimerFires (ps @ [p11])) r) =
           posted (waitForContextAndUpdate f now pg0 r) @
           (if sidebarOpen r \<and> iframeWindow r then [CONTEXT_UPDATE c11] else [])"
    unfolding fin by (simp add: updateContext_def postToSidebar_def wait_fields)
  show "timers (run (Trigger f now pg0 # map TimerFires (ps @ [p11])) r) = []"
    unfolding fin by (simp add: updateContext_def postToSidebar_def)
next
  fix u n and c :: ctx
  assume "str_includes u ''watch?v='' \<and> app c = ''youtube'' \<and> n < maxAttempts"
  then show "decide u n (Some c) =
              (if title c \<noteq> [] \<and> title c \<noteq> ''YouTube'' \<and> title c \<noteq> ''Loading...'' \<and>
                  \<not> str_includes (title c) ''watch?v=''
               then Commit c else Retry)"
    by (auto simp: decide_watch hasRealTitle_def)
next
  fix u and c :: ctx show "decide u maxAttempts (Some c) = Commit c"
    by (simp add: decide_def)
next
  fix qs q c
  assume a: "length qs = 24 \<and>
            (\<forall>p\<in>set qs. \<exists>c'. detectContext p = Some c' \<and> app c' = ''youtube'' \<and>
                 \<not> hasRealTitle c') \<and>
            detectContext q = Some c \<and> app c = ''youtube''"
  then have "run (Trigger f now pg0 # map TimerFires (qs @ [q])) r =
             updateContext c ((waitForContextAndUpdate f now pg0 r)\<lparr>timers := []\<rparr>)"
    by (intro cycle_commits [OF watch idle]) (simp_all add: maxAttempts_def)
  then show "pageContext (run (Trigger f now pg0 # map TimerFires (qs @ [q])) r) = Some c"
    by (simp add: updateContext_def postToSidebar_def)
qed

text \<open>
  Claim C5 on pages: ten polls of a watch page with no heading and the document title
  "YouTube", then a poll with the heading "Real Title".
\<close>

theorem watch_page_stabilization_witness:
  "pageContext (run (Trigger True 0 (watchPage videoA None ''YouTube'') #
        map TimerFires (replicate 10 (watchPage videoA None ''YouTube''))) idleOpen) = None \<and>
   pageContext (run (Trigger True 0 (watchPage videoA None ''YouTube'') #
        map TimerFires (replicate 10 (watchPage videoA None ''YouTube'') @
          [watchPage videoA (Some ''Real Title'') ''Real Title - YouTube''])) idleOpen) =
     Some (videoCtx videoA ''Real Title'' ''youtube:Real Title'') \<and>
   posted (run (Trigger True 0 (watchPage videoA None ''YouTube'') #
        map TimerFires (replicate 10 (watchPage videoA None ''YouTube'') @
          [watchPage videoA (Some ''Real Title'') ''Real Title - YouTube''])) idleOpen) =
     [CONTEXT_UPDATE (loadingContext videoA),
      CONTEXT_UPDATE (videoCtx videoA ''Real Title'' ''youtube:Real Title'')]"
proof -
  let ?bare = "watchPage videoA None ''YouTube''"
  let ?real = "watchPage videoA (Some ''Real Title'') ''Real Title - YouTube''"
  have w: "str_includes (href ?bare) ''watch?v=''"
    by (simp add: watchPage_def videoA_def)
  have i: "timers idleOpen = []"
    by (simp add: idleOpen_def)
  have l: "length (replicate 10 ?bare) = 10"
    by simp
  have b: "\<forall>p\<in>set (replicate 10 ?bare). \<exists>c. detectContext p = Some c \<and> app c = ''youtube'' \<and>
             title c = ''YouTube''"
    by (simp add: detect_fallback videoCtx_def)
  have r: "app (videoCtx videoA ''Real Title'' ''youtube:Real Title'') = ''youtube''"
    "title (videoCtx videoA ''Real Title'' ''youtube:Real Title'') = ''Real Title''"
    by (simp_all add: videoCtx_def)
  note t = watch_page_stabilization [OF w i l b detect_real r, of True 0]
  from t have "pageContext (run (Trigger True 0 ?bare #
        map TimerFires (take 10 (replicate 10 ?bare))) idleOpen) = pageContext idleOpen"
    by blast
  then have 1: "pageContext (run (Trigger True 0 ?bare #
        map TimerFires (replicate 10 ?bare)) idleOpen) = None"
    by (simp add: idleOpen_def)
  from t have 2: "pageContext (run (Trigger True 0 ?bare #
        map TimerFires (replicate 10 ?bare @ [?real])) idleOpen) =
     Some (videoCtx videoA ''Real Title'' ''youtube:Real Title'')"
    by blast
  from t have "posted (run (Trigger True 0 ?bare #
        map TimerFires (replicate 10 ?bare @ [?real])) idleOpen) =
     posted (waitForContextAndUpdate True 0 ?bare idleOpen) @
       (if sidebarOpen idleOpen \<and> iframeWindow idleOpen
        then [CONTEXT_UPDATE (videoCtx videoA ''Real Title'' ''youtube:Real Title'')] else [])"
    by blast
  then have 3: "posted (run (Trigger True 0 ?bare #
        map TimerFires (replicate 10 ?bare @ [?real])) idleOpen) =
     [CONTEXT_UPDATE (loadingContext videoA),
      CONTEXT_UPDATE (videoCtx videoA ''Real Title'' ''youtube:Real Title'')]"
    by (simp add: wait_fields idleOpen_def watchPage_def)
  from 1 2 3 show ?thesis by blast
qed

lemma href_watchPage: "href (watchPage u heading dt) = u"
  by (simp add: watchPage_def)

lemma stale_cycle_first:
  "run [Trigger True 0 searchPage, Trigger True 1000 (watchPage videoA None ''YouTube''),
        TimerFires (watchPage videoA None ''YouTube'')] idleOpen =
   \<lparr>pageContext = Some (videoCtx videoA ''YouTube'' ''youtube:''), sidebarOpen = True,
    iframeWindow = True,
    posted = [CONTEXT_UPDATE (loadingContext (href searchPage)),
              CONTEXT_UPDATE (loadingContext videoA),
              CONTEXT_UPDATE (videoCtx videoA ''YouTube'' ''youtube:'')],
    timers = [(3000, InitialDelay videoA)]\<rparr>"
proof -
  have d: "decide (href searchPage) (Suc 0) (detectContext (watchPage videoA None ''YouTube'')) =
           Commit (videoCtx videoA ''YouTube'' ''youtube:'')"
    unfolding detect_fallback by (simp add: decide_def searchPage_def isHomeUrl_def)
  show ?thesis
    by (simp add: run_def waitForContextAndUpdate_def setTimeout_def postToSidebar_def Let_def
        runTimer_def checkAndUpdate_def updateContext_def idleOpen_def d href_watchPage)
qed

text \<open>
  Claim C5 fails as stated, for a run that overlaps an older cycle. A navigation to a
  search page at 0 ms, then one to a watch page at 1000 ms. At 2000 ms the timer of the
  first cycle fires on the watch page, whose title has not rendered: it detects the
  context titled "YouTube", and since the address it closed over is the search page's,
  not a watch address, it commits at once. The second cycle then polls "YouTube" ten
  times and "Real Title" at poll 11: the bare context was committed before its first
  poll, and two contexts are posted, not the "Real Title" one alone.
\<close>

theorem stale_cycle_commits_bare_counterexample:
  "pageContext (run [Trigger True 0 searchPage,
                     Trigger True 1000 (watchPage videoA None ''YouTube''),
                     TimerFires (watchPage videoA None ''YouTube'')] idleOpen) =
     Some (videoCtx videoA ''YouTube'' ''youtube:'') \<and>
   posted (run ([Trigger True 0 searchPage,
                 Trigger True 1000 (watchPage videoA None ''YouTube''),
                 TimerFires (watchPage videoA None ''YouTube'')] @
                map TimerFires (replicate 10 (watchPage videoA None ''YouTube'') @
                  [watchPage videoA (Some ''Real Title'') ''Real Title - YouTube''])) idleOpen) =
     [CONTEXT_UPDATE (loadingContext (href searchPage)),
      CONTEXT_UPDATE (loadingContext videoA),
      CONTEXT_UPDATE (videoCtx videoA ''YouTube'' ''youtube:''),
      CONTEXT_UPDATE (videoCtx videoA ''Real Title'' ''youtube:Real Title'')]"
proof -
  let ?bare = "watchPage videoA None ''YouTube''"
  let ?real = "watchPage videoA (Some ''Real Title'') ''Real Title - YouTube''"
  let ?r3 = "\<lparr>pageContext = Some (videoCtx videoA ''YouTube'' ''youtube:''), sidebarOpen = True,
    iframeWindow = True,
    posted = [CONTEXT_UPDATE (loadingContext (href searchPage)),
              CONTEXT_UPDATE (loadingContext videoA),
              CONTEXT_UPDATE (videoCtx videoA ''YouTube'' ''youtube:'')],
    timers = []\<rparr>"
  have w: "str_includes videoA ''watch?v=''"
    by (simp add: videoA_def)
  have y: "app (videoCtx videoA t k) = ''youtube''" "title (videoCtx videoA t k) = t" for t k
    by (simp_all add: videoCtx_def)
  have retry: "\<forall>p\<in>set (replicate 10 ?bare). \<forall>n < maxAttempts.
                 decide videoA n (detectContext p) = Retry"
    by (simp add: detect_fallback decide_watch [OF w] y bare_not_real)
  have commit: "decide videoA (Suc 10) (detectContext ?real) =
                Commit (videoCtx videoA ''Real Title'' ''youtube:Real Title'')"
    by (simp add: detect_real decide_watch [OF w] y real_title_real)
  have "run (map TimerFires (replicate 10 ?bare @ [?real]))
          (?r3\<lparr>timers := [(3000, InitialDelay videoA)]\<rparr>) =
        run (map TimerFires (replicate 10 ?bare @ [?real]))
          (?r3\<lparr>timers := [(3000, Poll videoA 0)]\<rparr>)"
    by (rule run_initial_delay) simp
  also have "\<dots> = step (TimerFires ?real)
                     (run (map TimerFires (replicate 10 ?bare))
                        (?r3\<lparr>timers := [(3000, Poll videoA 0)]\<rparr>))"
    by (simp add: run_def)
  also have "run (map TimerFires (replicate 10 ?bare)) (?r3\<lparr>timers := [(3000, Poll videoA 0)]\<rparr>) =
             ?r3\<lparr>timers := [(3000 + 200 * length (replicate 10 ?bare),
                                Poll videoA (0 + length (replicate 10 ?bare)))]\<rparr>"
    using retry by (intro run_polls_retry) (simp_all add: maxAttempts_def)
  also have "step (TimerFires ?real) \<dots> =
             updateContext (videoCtx videoA ''Real Title'' ''youtube:Real Title'')
               (?r3\<lparr>timers := []\<rparr>)"
    using commit step_poll_commit [where r = ?r3 and a = 10 and u = videoA] by simp
  finally have rest: "run (map TimerFires (replicate 10 ?bare @ [?real]))
          (?r3\<lparr>timers := [(3000, InitialDelay videoA)]\<rparr>) =
        updateContext (videoCtx videoA ''Real Title'' ''youtube:Real Title'') (?r3\<lparr>timers := []\<rparr>)" .
  have split: "run (es @ es') r = run es' (run es r)" for es es' r
    by (simp add: run_def)
  show ?thesis
    unfolding split stale_cycle_first
    using rest by (simp add: updateContext_def postToSidebar_def)
qed

lemma detect_mail: "detectContext mailPage = Some mailInvoice"
  by (simp add: detectContext_def detectGmailContext_def mailPage_def mailInvoice_def
      trimmed_text_def opt_string_def or_else_def mkElement_def trim_def is_ws_def Let_def)

text \<open>
  Claim C10. On a trigger, whatever the page, the content script posts nothing when
  the panel is closed and otherwise exactly one message, the loading placeholder:
  app "youtube", title "Loading...", key "youtube:loading", \<open>isLoading\<close> set. The
  application detected on the page is one of the five, and the placeholder carries its
  tag only on the video site.
\<close>

theorem loading_placeholder_fixed:
  "posted (waitForContextAndUpdate f now pg r) =
     posted r @ (if sidebarOpen r \<and> iframeWindow r
                 then [CONTEXT_UPDATE (loadingContext (href pg))] else []) \<and>
   app (loadingContext (href pg)) = ''youtube'' \<and>
   title (loadingContext (href pg)) = ''Loading...'' \<and>
   key (loadingContext (href pg)) = ''youtube:loading'' \<and>
   isLoading (loadingContext (href pg)) \<and>
   (\<forall>c. detectContext pg = Some c \<longrightarrow>
      app c \<in> {''gmail'', ''meet'', ''docs'', ''calendar'', ''youtube''} \<and>
      (app (loadingContext (href pg)) = app c) = (hostname pg = ''www.youtube.com''))"
proof (intro conjI allI impI)
  show "posted (waitForContextAndUpdate f now pg r) =
     posted r @ (if sidebarOpen r \<and> iframeWindow r
                 then [CONTEXT_UPDATE (loadingContext (href pg))] else [])"
    by (simp add: wait_fields)
  show "app (loadingContext (href pg)) = ''youtube''"
    and "title (loadingContext (href pg)) = ''Loading...''"
    and "key (loadingContext (href pg)) = ''youtube:loading''"
    and "isLoading (loadingContext (href pg))"
    by (simp_all add: loadingContext_def)
next
  fix c assume d: "detectContext pg = Some c"
  from detect_app [OF d]
  show "app c \<in> {''gmail'', ''meet'', ''docs'', ''calendar'', ''youtube''}"
    and "(app (loadingContext (href pg)) = app c) = (hostname pg = ''www.youtube.com'')"
    by (auto simp: loadingContext_def)
qed

text \<open>Claim C10 on a mail thread: the page is detected as "gmail", the placeholder says "youtube".\<close>

theorem loading_placeholder_fixed_witness:
  "detectContext mailPage = Some mailInvoice \<and> app mailInvoice = ''gmail'' \<and>
   posted (waitForContextAndUpdate False 0 mailPage idleOpen) =
     [CONTEXT_UPDATE (loadingContext (href mailPage))] \<and>
   app (loadingContext (href mailPage)) = ''youtube'' \<and>
   app (loadingContext (href mailPage)) \<noteq> app mailInvoice"
proof -
  note t = loading_placeholder_fixed [of False 0 mailPage idleOpen]
  have h: "hostname mailPage \<noteq> ''www.youtube.com''"
    by (simp add: mailPage_def)
  from t detect_mail h have "app (loadingContext (href mailPage)) \<noteq> app mailInvoice"
    by blast
  moreover from t have "posted (waitForContextAndUpdate False 0 mailPage idleOpen) =
     [CONTEXT_UPDATE (loadingContext (href mailPage))]"
    by (simp add: idleOpen_def)
  moreover from t have "app (loadingContext (href mailPage)) = ''youtube''"
    by blast
  ultimately show ?thesis
    by (simp add: detect_mail mailInvoice_def)
qed

lemma trigger_keeps_timers: "set (timers r) \<subseteq> set (timers (step (Trigger f t p) r))"
proof -
  have "set (add_timer x xs) = insert x (set xs)" for x :: "nat \<times> timer_task" and xs
    by (induction xs) auto
  then show ?thesis
    by (auto simp: waitForContextAndUpdate_def setTimeout_def postToSidebar_def Let_def)
qed

lemma firing_keeps_timers:
  assumes "timers r = x # rest"
  shows "set rest \<subseteq> set (timers (step (TimerFires q) r))"
proof -
  have a: "set (add_timer y ys) = insert y (set ys)" for y :: "nat \<times> timer_task" and ys
    by (induction ys) auto
  obtain d task where x: "x = (d, task)" by (cases x)
  show ?thesis
    using assms
    by (cases task)
      (auto simp: x runTimer_def checkAndUpdate_def setTimeout_def updateContext_def
        postToSidebar_def a Let_def split: decision.splits)
qed

text \<open>
  Claim C2 as the content script has it: there is no generation marker and no
  cancellation. A second trigger during the settle delay of the first only queues a
  second timer behind the first; a trigger never removes a pending timer, nor does the
  firing of another timer. When each cycle accepts what it detects at its first poll,
  the first cycle commits first, then the second: both commits are posted, and the
  page context ends as the second one.
\<close>

theorem overlapping_cycles_both_commit:
  assumes idle: "timers r = []"
    and order: "t1 \<le> t2" "t2 < t1 + 2000"
    and c1: "decide (href p1) 1 (detectContext q1) = Commit c1"
    and c2: "decide (href p2) 1 (detectContext q2) = Commit c2"
  shows "timers (run [Trigger f1 t1 p1, Trigger f2 t2 p2] r) =
           [(t1 + 2000, InitialDelay (href p1)), (t2 + 2000, InitialDelay (href p2))] \<and>
         posted (run [Trigger f1 t1 p1, Trigger f2 t2 p2, TimerFires q1] r) =
           posted r @ (if sidebarOpen r \<and> iframeWindow r
                       then [CONTEXT_UPDATE (loadingContext (href p1)),
                             CONTEXT_UPDATE (loadingContext (href p2)),
                             CONTEXT_UPDATE c1] else []) \<and>
         pageContext (run [Trigger f1 t1 p1, Trigger f2 t2 p2, TimerFires q1] r) = Some c1 \<and>
         posted (run [Trigger f1 t1 p1, Trigger f2 t2 p2, TimerFires q1, TimerFires q2] r) =
           posted r @ (if sidebarOpen r \<and> iframeWindow r
                       then [CONTEXT_UPDATE (loadingContext (href p1)),
                             CONTEXT_UPDATE (loadingContext (href p2)),
                             CONTEXT_UPDATE c1, CONTEXT_UPDATE c2] else []) \<and>
         pageContext (run [Trigger f1 t1 p1, Trigger f2 t2 p2, TimerFires q1, TimerFires q2] r) =
           Some c2 \<and>
         (\<forall>r' f t p. set (timers r') \<subseteq> set (timers (step (Trigger f t p) r'))) \<and>
         (\<forall>r' x rest q. timers r' = x # rest \<longrightarrow> set rest \<subseteq> set (timers (step (TimerFires q) r')))"
  using idle order c1 c2 trigger_keeps_timers firing_keeps_timers
  by (simp add: run_def waitForContextAndUpdate_def setTimeout_def postToSidebar_def Let_def
      runTimer_def checkAndUpdate_def updateContext_def)

text \<open>Claim C2, amended, on two navigations 500 ms apart.\<close>

theorem overlapping_cycles_both_commit_witness:
  "timers (run [Trigger True 0 (watchPage videoA None ''YouTube''),
                Trigger False 500 (watchPage videoB (Some ''Video A'') ''YouTube'')] idleOpen) =
     [(2000, InitialDelay videoA), (2500, InitialDelay videoB)] \<and>
   pageContext (run [Trigger True 0 (watchPage videoA None ''YouTube''),
                Trigger False 500 (watchPage videoB (Some ''Video A'') ''YouTube''),
                TimerFires (watchPage videoB (Some ''Video A'') ''YouTube'')] idleOpen) =
     Some (videoCtx videoB ''Video A'' ''youtube:Video A'') \<and>
   pageContext (run [Trigger True 0 (watchPage videoA None ''YouTube''),
                Trigger False 500 (watchPage videoB (Some ''Video A'') ''YouTube''),
                TimerFires (watchPage videoB (Some ''Video A'') ''YouTube''),
                TimerFires (watchPage videoB (Some ''Video B'') ''Video B - YouTube'')] idleOpen) =
     Some (videoCtx videoB ''Video B'' ''youtube:Video B'')"
proof -
  let ?p1 = "watchPage videoA None ''YouTube''"
  let ?p2 = "watchPage videoB (Some ''Video A'') ''YouTube''"
  let ?q2 = "watchPage videoB (Some ''Video B'') ''Video B - YouTube''"
  have da: "detectContext ?p2 = Some (videoCtx videoB ''Video A'' ''youtube:Video A'')"
    by (simp add: detectContext_def detectYouTubeContext_def watchPage_def videoB_def
        videoCtx_def isHomeUrl_def youtubeVideoTitle_def trimmed_text_def or_else_def
        mkElement_def trim_def is_ws_def Let_def)
  have db: "detectContext ?q2 = Some (videoCtx videoB ''Video B'' ''youtube:Video B'')"
    by (simp add: detectContext_def detectYouTubeContext_def watchPage_def videoB_def
        videoCtx_def isHomeUrl_def youtubeVideoTitle_def trimmed_text_def or_else_def
        mkElement_def trim_def is_ws_def Let_def)
  have i: "timers idleOpen = []"
    by (simp add: idleOpen_def)
  have c1: "decide (href ?p1) 1 (detectContext ?p2) =
            Commit (videoCtx videoB ''Video A'' ''youtube:Video A'')"
    unfolding da
    by (simp add: decide_def watchPage_def videoA_def isHomeUrl_def videoCtx_def
        hasRealTitle_def)
  have c2: "decide (href ?p2) 1 (detectContext ?q2) =
            Commit (videoCtx videoB ''Video B'' ''youtube:Video B'')"
    unfolding db
    by (simp add: decide_def watchPage_def videoB_def isHomeUrl_def videoCtx_def
        hasRealTitle_def)
  have o: "(0::nat) \<le> 500" "(500::nat) < 0 + 2000"
    by simp_all
  note t = overlapping_cycles_both_commit [OF i o c1 c2, of True False]
  from t show ?thesis
    by (simp add: watchPage_def)
qed

text \<open>
  Claim C2 fails as stated. A navigation to video A at 0 ms and one to video B at
  1000 ms; at 2000 ms the first cycle's timer fires while the heading still shows
  "Video A", at 3000 ms the second fires with "Video B" rendered. Both cycles commit:
  the first posts a context titled "Video A" under B's address, the second posts B's.
\<close>

theorem overlapping_cycles_counterexample:
  "posted (run [Trigger True 0 (watchPage videoA None ''YouTube''),
                Trigger True 1000 (watchPage videoB (Some ''Video A'') ''YouTube''),
                TimerFires (watchPage videoB (Some ''Video A'') ''YouTube''),
                TimerFires (watchPage videoB (Some ''Video B'') ''Video B - YouTube'')] idleOpen) =
     [CONTEXT_UPDATE (loadingContext videoA), CONTEXT_UPDATE (loadingContext videoB),
      CONTEXT_UPDATE (videoCtx videoB ''Video A'' ''youtube:Video A''),
      CONTEXT_UPDATE (videoCtx videoB ''Video B'' ''youtube:Video B'')]"
  by (simp add: run_def waitForContextAndUpdate_def setTimeout_def postToSidebar_def Let_def
      runTimer_def checkAndUpdate_def updateContext_def idleOpen_def decide_def
      detectContext_def detectYouTubeContext_def watchPage_def videoA_def videoB_def videoCtx_def
      isHomeUrl_def youtubeVideoTitle_def trimmed_text_def or_else_def mkElement_def
      trim_def is_ws_def hasRealTitle_def maxAttempts_def loadingContext_def)

end
